theory Spec2Isabelle
  imports Main "HOL-Library.Word"
begin

section \<open>The compile and execution drivers of the module loader\<close>

text \<open>
  A shallow embedding of \<^verbatim>\<open>compile\<close>, \<^verbatim>\<open>isDescendant\<close>, \<^verbatim>\<open>tryCompile\<close>, \<^verbatim>\<open>tryRun\<close>,
  \<^verbatim>\<open>useAsync\<close> and \<^verbatim>\<open>useSourceMap\<close> of the module-internal compile driver. JavaScript
  objects that are shared and mutated (entries, packages, CompileData objects) live in
  stores indexed by a reference (a natural number); a thrown exception is the left
  summand of a result. The collaborators whose source is not part of the driver
  (the Caching Compiler, the host's \<^verbatim>\<open>Module#_compile\<close>, the stack-trace utilities)
  are the fields of a record \<open>host\<close>: they may read the whole state when they are called,
  and every call is appended to a trace.
\<close>

subsection \<open>Constants and values\<close>

datatype entry_type = TYPE_CJS | TYPE_ESM

datatype entry_state =
    STATE_INITIAL
  | STATE_PARSING_STARTED
  | STATE_PARSING_COMPLETED
  | STATE_EXECUTION_STARTED
  | STATE_EXECUTION_COMPLETED

datatype source_type = SOURCE_TYPE_SCRIPT | SOURCE_TYPE_MODULE | SOURCE_TYPE_UNAMBIGUOUS

datatype package_mode = MODE_STRICT | MODE_AUTO | MODE_ALL

datatype js_value = Undefined | Null | Boolean bool | Number int | String string | Object nat

fun truthy :: "js_value \<Rightarrow> bool" where
  "truthy Undefined = False"
| "truthy Null = False"
| "truthy (Boolean b) = b"
| "truthy (Number n) = (n \<noteq> 0)"
| "truthy (String s) = (s \<noteq> [])"
| "truthy (Object r) = True"

text \<open>
  The message of an error is a JavaScript string, a sequence of 16-bit code units:
  \<^verbatim>\<open>exportsRegExp\<close> looks at its code units one by one. \<open>codeUnits\<close> gives the code units
  of a text of Latin-1 characters, each of which is one code unit with the same number.
\<close>

type_synonym code_unit = "16 word"

type_synonym js_string = "code_unit list"

definition codeUnits :: "string \<Rightarrow> js_string" where
  "codeUnits s = map (\<lambda>c. of_nat (of_char c)) s"

record js_error =
  err_name :: string
  err_message :: js_string
  err_line :: "nat option"
  err_column :: "nat option"
  err_inModule :: bool
  err_stack :: string

record location =
  loc_line :: nat
  loc_column :: nat

subsection \<open>CompileData, runtime objects, entries, packages\<close>

record compileData =
  cd_code :: "string option"
  cd_sourceType :: source_type
  cd_transforms :: nat
  cd_scriptData :: "nat option"
  cd_codeWithTDZ :: "string option"
  cd_circular :: int
  cd_firstAwaitOutsideFunction :: "location option"

text \<open>
  The value of \<^verbatim>\<open>runtime._runResult\<close>. \<open>GenWrapper\<close> is the generator that \<^verbatim>\<open>tryRun\<close>
  itself creates for a CJS entry (\<^verbatim>\<open>function *() { yield; return Reflect.apply(_compile,
  mod, [source, filename]) }\<close>), with the source and file name it has captured and the
  point it is suspended at. \<open>GenHost n\<close> is the continuation the executed ESM wrapper
  leaves behind, after \<open>n\<close> calls of its \<^verbatim>\<open>next()\<close>.
\<close>

datatype generator_state = SuspendedStart | SuspendedYield | Completed

datatype generator = GenWrapper generator_state string string | GenHost nat

record runtime =
  runResult :: "generator option"

text \<open>
  The \<^verbatim>\<open>loaded\<close> property of the host module object: a plain data property, or the
  accessor that \<^verbatim>\<open>tryRun\<close> installs with \<^verbatim>\<open>Reflect.defineProperty\<close>.
\<close>

datatype loaded_property = LoadedData js_value | LoadedAccessor

record entry =
  extname :: string
  cacheName :: string
  mtime :: int
  runtimeName :: string
  package :: nat
  type :: entry_type
  state :: entry_state
  compileData :: "nat option"
  runtime :: "runtime option"
  circular :: bool
  running :: bool
  children :: "(string \<times> nat) list"
  getters :: "string list"
  namespaceFinalized :: int
  module_exports :: js_value
  module_loaded :: loaded_property
  module_parent :: "nat option"

text \<open>
  \<open>children\<close> lists the own enumerable properties of \<^verbatim>\<open>entry.children\<close> in the order
  \<^verbatim>\<open>for (const name in children)\<close> visits them; \<open>getters\<close> lists the keys of
  \<^verbatim>\<open>entry.getters\<close>; \<open>module_parent\<close> is \<^verbatim>\<open>Entry.get(mod.parent)\<close>, \<open>None\<close> for \<^verbatim>\<open>null\<close>.
\<close>

record package =
  opt_mode :: package_mode
  opt_await :: bool
  opt_debug :: bool
  opt_sourceMap :: bool
  opt_cjs_vars :: bool
  opt_cjs_topLevelReturn :: bool
  cachePath :: string
  cache_compile :: "string \<Rightarrow> nat option"
  cache_dirty :: bool

datatype event =
    EvCachingCompile string
  | EvRuntimeEnable nat
  | EvModuleCompile nat string string
  | EvUpdateBindings nat
  | EvLoaded nat
  | EvFinalizeNamespace nat
  | EvFallback

text \<open>
  The state of the loader. Entries with a reference below \<open>entryCount\<close> are the
  registered ones; \<open>compileDataCount\<close> and \<open>objects\<close> count the CompileData objects and
  the plain objects (\<^verbatim>\<open>GenericObject.create()\<close>) allocated so far; \<open>defaultPkg\<close> is
  \<^verbatim>\<open>Loader.state.package.default\<close> and \<open>parsing\<close> is \<^verbatim>\<open>shared.moduleState.parsing\<close>.
\<close>

record world =
  entries :: "nat \<Rightarrow> entry"
  entryCount :: nat
  packages :: "nat \<Rightarrow> package"
  compileDatas :: "nat \<Rightarrow> compileData"
  compileDataCount :: nat
  defaultPkg :: nat
  parsing :: bool
  objects :: nat
  trace :: "event list"

record compile_options =
  o_cacheName :: string
  o_cachePath :: string
  o_cjsVars :: bool
  o_filename :: string
  o_hint :: source_type
  o_mtime :: int
  o_runtimeName :: string
  o_sourceType :: source_type
  o_topLevelReturn :: bool

record source_options =
  s_async :: bool
  s_cjsVars :: bool
  s_runtimeName :: string
  s_sourceMap :: bool

record mask_options =
  m_content :: "string option"
  m_filename :: string
  m_inModule :: "bool option"

text \<open>
  The imported constants and collaborators. \<open>getStackFrames\<close> gives the file names
  (\<^verbatim>\<open>frame.getFileName()\<close>) of the frames of \<^verbatim>\<open>getStackFrames(new Error)\<close>.
  \<open>generator_next h w e n\<close> is the outcome of the call number \<open>n\<close> of \<^verbatim>\<open>next()\<close> on the
  continuation of the ESM entry \<open>e\<close>.
\<close>

record host =
  TRANSFORMS_EVAL :: nat
  NAMESPACE_FINALIZATION_DEFERRED :: int
  ILLEGAL_AWAIT_IN_NON_ASYNC_FUNCTION :: js_string
  DEVELOPMENT :: bool
  ELECTRON_RENDERER :: bool
  NDB :: bool
  FLAGS_inspect :: bool
  support_await :: bool
  CachingCompiler_compile :: "world \<Rightarrow> string \<Rightarrow> compile_options \<Rightarrow> js_error + compileData"
  compileSource :: "compileData \<Rightarrow> source_options \<Rightarrow> string"
  getSourceMappingURL :: "string option \<Rightarrow> string"
  module_compile :: "world \<Rightarrow> nat \<Rightarrow> string \<Rightarrow> string \<Rightarrow> js_error + js_value"
  generator_next :: "world \<Rightarrow> nat \<Rightarrow> nat \<Rightarrow> js_error + js_value"
  isStackTraceMaskable :: "js_error \<Rightarrow> bool"
  toExternalError :: "js_error \<Rightarrow> js_error"
  captureStackTrace :: "js_error \<Rightarrow> nat \<Rightarrow> js_error"
  maskStackTrace :: "js_error \<Rightarrow> mask_options \<Rightarrow> js_error"
  getLocationFromStackTrace :: "js_error \<Rightarrow> string option"
  getStackFrames :: "world \<Rightarrow> string list"
  isAbsolute :: "string \<Rightarrow> bool"
  isOwnPath :: "string \<Rightarrow> bool"

subsection \<open>Updating the stores\<close>

definition log :: "event \<Rightarrow> world \<Rightarrow> world" where
  "log ev w = w\<lparr>trace := trace w @ [ev]\<rparr>"

definition updEntry :: "nat \<Rightarrow> (entry \<Rightarrow> entry) \<Rightarrow> world \<Rightarrow> world" where
  "updEntry e f w = w\<lparr>entries := (entries w)(e := f (entries w e))\<rparr>"

definition updPackage :: "nat \<Rightarrow> (package \<Rightarrow> package) \<Rightarrow> world \<Rightarrow> world" where
  "updPackage p f w = w\<lparr>packages := (packages w)(p := f (packages w p))\<rparr>"

definition updCompileData :: "nat \<Rightarrow> (compileData \<Rightarrow> compileData) \<Rightarrow> world \<Rightarrow> world" where
  "updCompileData a f w = w\<lparr>compileDatas := (compileDatas w)(a := f (compileDatas w a))\<rparr>"

definition setState :: "nat \<Rightarrow> entry_state \<Rightarrow> world \<Rightarrow> world" where
  "setState e s w = updEntry e (\<lambda>en. en\<lparr>state := s\<rparr>) w"

definition setRunning :: "nat \<Rightarrow> bool \<Rightarrow> world \<Rightarrow> world" where
  "setRunning e b w = updEntry e (\<lambda>en. en\<lparr>running := b\<rparr>) w"

definition setRunResult :: "nat \<Rightarrow> generator option \<Rightarrow> world \<Rightarrow> world" where
  "setRunResult e g w = updEntry e (\<lambda>en. en\<lparr>runtime := Some \<lparr>runResult = g\<rparr>\<rparr>) w"

definition runResultOf :: "world \<Rightarrow> nat \<Rightarrow> generator option" where
  "runResultOf w e = (case runtime (entries w e) of None \<Rightarrow> None | Some rt \<Rightarrow> runResult rt)"

definition GenericObject_create :: "world \<Rightarrow> js_value \<times> world" where
  "GenericObject_create w = (Object (objects w), w\<lparr>objects := Suc (objects w)\<rparr>)"

text \<open>
  Modelled from the spec: \<^verbatim>\<open>Runtime.enable(entry, exported)\<close> (the Runtime Bridge,
  \<open>enable(entry, seedBindingsObject) \<rightarrow> liveRuntimeObject\<close>) is not part of the driver's
  source. It hands out a new runtime object for the entry, with no execution continuation
  yet, and the entry keeps it (\<open>runtime\<close> is "created at most once" and "reused").
\<close>

definition Runtime_enable :: "nat \<Rightarrow> js_value \<Rightarrow> world \<Rightarrow> world" where
  "Runtime_enable e exported w =
     log (EvRuntimeEnable e) (updEntry e (\<lambda>en. en\<lparr>runtime := Some \<lparr>runResult = None\<rparr>\<rparr>) w)"

text \<open>
  Modelled from the spec: \<^verbatim>\<open>CachingCompiler.from(entry)\<close> (\<open>fromCache(entry) \<rightarrow> CompileData
  | null\<close>) is not part of the driver's source. It looks the package's compile cache up by
  the entry's cache key. What it finds becomes the entry's CompileData: \<^verbatim>\<open>tryRun\<close> reads
  \<^verbatim>\<open>entry.compileData\<close>, which \<^verbatim>\<open>compile\<close> itself assigns only after a fresh compilation.
\<close>

definition CachingCompiler_from :: "world \<Rightarrow> nat \<Rightarrow> nat option \<times> world" where
  "CachingCompiler_from w e =
     (case cache_compile (packages w (package (entries w e))) (cacheName (entries w e)) of
        None \<Rightarrow> (None, w)
      | Some a \<Rightarrow> (Some a, updEntry e (\<lambda>en. en\<lparr>compileData := Some a\<rparr>) w))"

text \<open>
  Modelled from the spec: \<^verbatim>\<open>entry.updateBindings()\<close>, \<^verbatim>\<open>entry.loaded()\<close> and
  \<^verbatim>\<open>entry.finalizeNamespace()\<close> are methods of Entry, whose source is not part of the
  driver; each call is recorded in the trace.
\<close>

definition Entry_updateBindings :: "nat \<Rightarrow> world \<Rightarrow> world" where
  "Entry_updateBindings e w = log (EvUpdateBindings e) w"

definition Entry_loaded :: "nat \<Rightarrow> world \<Rightarrow> world" where
  "Entry_loaded e w = log (EvLoaded e) w"

definition Entry_finalizeNamespace :: "nat \<Rightarrow> world \<Rightarrow> world" where
  "Entry_finalizeNamespace e w = log (EvFinalizeNamespace e) w"

text \<open>\<^verbatim>\<open>isObjectEmpty(object)\<close>: the object has no key.\<close>

definition isObjectEmpty :: "string list \<Rightarrow> bool" where
  "isObjectEmpty keys = (keys = [])"

subsection \<open>\<^verbatim>\<open>exportsRegExp = /^.*?\bexports\b/\<close>\<close>

text \<open>
  The regular expression has no flag. \<^verbatim>\<open>^\<close> is the start of the message; \<^verbatim>\<open>.\<close> matches
  every code unit but the four line terminators, line feed, carriage return, U+2028 and
  U+2029; the word characters of \<^verbatim>\<open>\b\<close> are \<^verbatim>\<open>[A-Za-z0-9_]\<close>. \<open>exportsHere s\<close>: \<open>s\<close>
  starts with \<^verbatim>\<open>exports\<close>, and no word character follows. \<open>exportsScan prevWord s\<close>: the
  rest \<open>s\<close> of the message, reached over code units that \<^verbatim>\<open>.\<close> matches, holds the word;
  \<open>prevWord\<close> tells whether the code unit before \<open>s\<close> is a word character.
\<close>

definition isLineTerminator :: "code_unit \<Rightarrow> bool" where
  "isLineTerminator c = (c = 0x0A \<or> c = 0x0D \<or> c = 0x2028 \<or> c = 0x2029)"

definition isWordChar :: "code_unit \<Rightarrow> bool" where
  "isWordChar c =
     ((0x30 \<le> c \<and> c \<le> 0x39) \<or> (0x41 \<le> c \<and> c \<le> 0x5A) \<or> c = 0x5F \<or>
      (0x61 \<le> c \<and> c \<le> 0x7A))"

definition exportsHere :: "js_string \<Rightarrow> bool" where
  "exportsHere s =
     (take 7 s = codeUnits ''exports'' \<and>
      (case drop 7 s of [] \<Rightarrow> True | c # cs \<Rightarrow> \<not> isWordChar c))"

fun exportsScan :: "bool \<Rightarrow> js_string \<Rightarrow> bool" where
  "exportsScan prevWord [] = False"
| "exportsScan prevWord (c # cs) =
     (if \<not> prevWord \<and> exportsHere (c # cs) then True
      else if isLineTerminator c then False
      else exportsScan (isWordChar c) cs)"

definition exportsRegExp_test :: "js_string \<Rightarrow> bool" where
  "exportsRegExp_test message = exportsScan False message"

subsection \<open>\<^verbatim>\<open>isDescendant\<close>\<close>

text \<open>
  The entries \<^verbatim>\<open>for (const name in children)\<close> visits. A reference that is not
  registered names no entry and has no children.
\<close>

definition childEntries :: "world \<Rightarrow> nat \<Rightarrow> nat list" where
  "childEntries w parentEntry =
     (if parentEntry < entryCount w then map snd (children (entries w parentEntry)) else [])"

text \<open>
  \<^verbatim>\<open>isDescendant(entry, parentEntry, seen)\<close>. The set \<^verbatim>\<open>seen\<close> is one mutable object
  shared by all the recursive calls, so the model returns it with the answer;
  \<open>None\<close> is the argument left out (\<^verbatim>\<open>seen === void 0\<close>). \<open>isDescendant_children\<close> is
  the \<^verbatim>\<open>for\<close> loop over the children that are still to be visited.
\<close>

function isDescendant :: "world \<Rightarrow> nat \<Rightarrow> nat \<Rightarrow> nat set option \<Rightarrow> bool \<times> nat set"
  and isDescendant_children :: "world \<Rightarrow> nat \<Rightarrow> nat list \<Rightarrow> nat set \<Rightarrow> bool \<times> nat set" where
  "isDescendant w entry parentEntry seen0 =
     (case seen0 of
        None \<Rightarrow>
          isDescendant_children w entry (childEntries w parentEntry) (insert parentEntry {})
      | Some seen \<Rightarrow>
          if parentEntry \<in> seen then (False, seen)
          else isDescendant_children w entry (childEntries w parentEntry)
                 (insert parentEntry seen))"
| "isDescendant_children w entry [] seen = (False, seen)"
| "isDescendant_children w entry (childEntry # rest) seen =
     (if entry = childEntry then (True, seen)
      else (case isDescendant w entry childEntry (Some seen) of
              (True, seen') \<Rightarrow> (True, seen')
            | (False, seen') \<Rightarrow> isDescendant_children w entry rest seen'))"
  by pat_completeness auto

lemma isDescendant_seen_grows_dom:
  "isDescendant_isDescendant_children_dom (Inl (w, entry, parentEntry, seen0)) \<Longrightarrow>
     (case seen0 of None \<Rightarrow> {} | Some seen \<Rightarrow> seen) \<subseteq> snd (isDescendant w entry parentEntry seen0)"
  "isDescendant_isDescendant_children_dom (Inr (w, entry, cs, seen)) \<Longrightarrow>
     seen \<subseteq> snd (isDescendant_children w entry cs seen)"
proof (induction w entry parentEntry seen0 and w entry cs seen
    rule: isDescendant_isDescendant_children.pinduct)
  case (1 w entry parentEntry seen0)
  then show ?case
    by (auto simp: isDescendant.psimps split: option.splits)
next
  case (2 w entry seen)
  then show ?case by (simp add: isDescendant_children.psimps)
next
  case (3 w entry childEntry rest seen)
  show ?case
  proof (cases "entry = childEntry")
    case True
    with 3 show ?thesis by (simp add: isDescendant_children.psimps)
  next
    case False
    obtain b s where r: "isDescendant w entry childEntry (Some seen) = (b, s)"
      by (cases "isDescendant w entry childEntry (Some seen)")
    from 3(2) False r have s: "seen \<subseteq> s" by simp
    show ?thesis
    proof (cases b)
      case True
      with 3(1) False r s show ?thesis by (simp add: isDescendant_children.psimps)
    next
      case bF: False
      from 3(3) False r bF have "s \<subseteq> snd (isDescendant_children w entry rest s)" by simp
      with 3(1) False r s bF show ?thesis by (auto simp add: isDescendant_children.psimps)
    qed
  qed
qed

lemma card_unseen_insert:
  "p \<notin> seen \<Longrightarrow> p < n \<Longrightarrow> card ({..<n} - insert p seen) < card ({..<n::nat} - seen)"
  by (rule psubset_card_mono) auto

lemma card_unseen_mono:
  "seen \<subseteq> seen' \<Longrightarrow> card ({..<n::nat} - seen') \<le> card ({..<n} - seen)"
  by (rule card_mono) auto

lemma unseen_insert_outside:
  "\<not> p < n \<Longrightarrow> {..<n} - insert p seen = {..<n} - (seen :: nat set)"
  by auto

termination isDescendant
proof (relation "inv_image (less_than <*lex*> less_than)
    (\<lambda>x. case x of
        Inl (w, entry, parentEntry, seen0) \<Rightarrow>
          (card ({..<entryCount w} - (case seen0 of None \<Rightarrow> {} | Some seen \<Rightarrow> seen)), 1)
      | Inr (w, entry, cs, seen) \<Rightarrow>
          (card ({..<entryCount w} - seen), 2 * length cs))", goal_cases)
  case 1
  then show ?case by (intro wf_inv_image wf_lex_prod wf_less_than)
next
  case (2 w entry parentEntry seen0)
  then show ?case
    using card_unseen_insert [of parentEntry "{}" "entryCount w"]
    by (cases "parentEntry < entryCount w")
      (simp_all add: childEntries_def unseen_insert_outside)
next
  case (3 w entry parentEntry seen0 seen)
  then show ?case
    using card_unseen_insert [of parentEntry seen "entryCount w"]
    by (cases "parentEntry < entryCount w")
      (simp_all add: childEntries_def unseen_insert_outside)
next
  case (4 w entry childEntry rest seen)
  then show ?case by simp
next
  case (5 w entry childEntry rest seen x y)
  from 5 isDescendant_seen_grows_dom(1) [of w entry childEntry "Some seen"]
  have "seen \<subseteq> y"
    by (cases "isDescendant w entry childEntry (Some seen)") simp
  from card_unseen_mono [OF this, of "entryCount w"] show ?case
    by auto
qed

text \<open>
  The same search with a budget for the depth of the recursion: every nested call of
  \<^verbatim>\<open>isDescendant\<close> takes one unit, and \<open>None\<close> is the budget running out.
\<close>

fun isDescendant_bounded ::
    "nat \<Rightarrow> world \<Rightarrow> nat \<Rightarrow> nat \<Rightarrow> nat set option \<Rightarrow> (bool \<times> nat set) option"
  and isDescendant_children_bounded ::
    "nat \<Rightarrow> world \<Rightarrow> nat \<Rightarrow> nat list \<Rightarrow> nat set \<Rightarrow> (bool \<times> nat set) option" where
  "isDescendant_bounded 0 w entry parentEntry seen0 = None"
| "isDescendant_bounded (Suc d) w entry parentEntry seen0 =
     (case seen0 of
        None \<Rightarrow>
          isDescendant_children_bounded d w entry (childEntries w parentEntry)
            (insert parentEntry {})
      | Some seen \<Rightarrow>
          if parentEntry \<in> seen then Some (False, seen)
          else isDescendant_children_bounded d w entry (childEntries w parentEntry)
                 (insert parentEntry seen))"
| "isDescendant_children_bounded d w entry [] seen = Some (False, seen)"
| "isDescendant_children_bounded d w entry (childEntry # rest) seen =
     (if entry = childEntry then Some (True, seen)
      else (case isDescendant_bounded d w entry childEntry (Some seen) of
              None \<Rightarrow> None
            | Some (True, seen') \<Rightarrow> Some (True, seen')
            | Some (False, seen') \<Rightarrow> isDescendant_children_bounded d w entry rest seen'))"

subsection \<open>\<^verbatim>\<open>tryCompile\<close>\<close>

text \<open>
  \<^verbatim>\<open>tryCompile(caller, entry, content, options)\<close>: the call of the Caching Compiler; when
  it throws, the entry is marked completed and the error is rethrown, as an external
  error in debug mode or when it is not maskable, with a masked trace otherwise.
\<close>

definition tryCompile ::
    "host \<Rightarrow> nat \<Rightarrow> world \<Rightarrow> nat \<Rightarrow> string \<Rightarrow> compile_options \<Rightarrow> (js_error + compileData) \<times> world" where
  "tryCompile h caller w e content options =
     (case CachingCompiler_compile h w content options of
        Inr result \<Rightarrow> (Inr result, log (EvCachingCompile (o_cacheName options)) w)
      | Inl error \<Rightarrow>
          (let w1 = setState e STATE_EXECUTION_COMPLETED
                      (log (EvCachingCompile (o_cacheName options)) w)
           in if opt_debug (packages w1 (defaultPkg w1)) \<or> \<not> isStackTraceMaskable h error
              then (Inl (toExternalError h error), w1)
              else (Inl (maskStackTrace h (captureStackTrace h error caller)
                           \<lparr>m_content = Some content, m_filename = o_filename options,
                            m_inModule = None\<rparr>), w1)))"

subsection \<open>\<^verbatim>\<open>compile\<close>: the source type and the CompileData\<close>

text \<open>The pair \<^verbatim>\<open>(hint, sourceType)\<close> that \<^verbatim>\<open>compile\<close> derives first.\<close>

definition sourceTypeOf :: "entry \<Rightarrow> package_mode \<Rightarrow> source_type \<times> source_type" where
  "sourceTypeOf en pkgMode =
     (if extname en = ''.mjs'' then (SOURCE_TYPE_MODULE, SOURCE_TYPE_MODULE)
      else if pkgMode = MODE_ALL then (SOURCE_TYPE_SCRIPT, SOURCE_TYPE_MODULE)
      else if pkgMode = MODE_AUTO then (SOURCE_TYPE_SCRIPT, SOURCE_TYPE_UNAMBIGUOUS)
      else (SOURCE_TYPE_SCRIPT, SOURCE_TYPE_SCRIPT))"

text \<open>
  \<^verbatim>\<open>if (compileData !== null && compileData.code === null) compileData.code = content\<close>;
  the CompileData is never \<^verbatim>\<open>null\<close> at this point.
\<close>

definition defaultCode :: "nat \<Rightarrow> string \<Rightarrow> world \<Rightarrow> world" where
  "defaultCode a content w =
     (if cd_code (compileDatas w a) = None
      then updCompileData a (\<lambda>cd. cd\<lparr>cd_code := Some content\<rparr>) w
      else w)"

text \<open>
  \<open>compileOptions\<close> is the options object that \<^verbatim>\<open>compile\<close> passes to \<^verbatim>\<open>tryCompile\<close>.
  \<open>compileFresh\<close> is
  the branch of \<^verbatim>\<open>compile\<close> that compiles afresh: the call of \<^verbatim>\<open>tryCompile\<close>, the new
  CompileData object stored in the entry and in the package's compile cache, the entry
  type taken from the compiled source type, and the revert of a CJS module of the
  default package whose only transform is the one of \<^verbatim>\<open>eval\<close>.
\<close>

definition compileOptions :: "world \<Rightarrow> nat \<Rightarrow> string \<Rightarrow> compile_options" where
  "compileOptions w e filename =
     (let en = entries w e;
          pkg = packages w (package en)
      in \<lparr>o_cacheName = cacheName en, o_cachePath = cachePath pkg,
          o_cjsVars = opt_cjs_vars pkg, o_filename = filename,
          o_hint = fst (sourceTypeOf en (opt_mode pkg)), o_mtime = mtime en,
          o_runtimeName = runtimeName en,
          o_sourceType = snd (sourceTypeOf en (opt_mode pkg)),
          o_topLevelReturn = opt_cjs_topLevelReturn pkg\<rparr>)"

definition compileFresh ::
    "host \<Rightarrow> nat \<Rightarrow> world \<Rightarrow> nat \<Rightarrow> string \<Rightarrow> string \<Rightarrow> nat option \<Rightarrow> (js_error + nat) \<times> world" where
  "compileFresh h caller w e content filename scriptData =
     (let en = entries w e;
          isDefaultPkg = (package en = defaultPkg w)
      in case tryCompile h caller w e content (compileOptions w e filename) of
           (Inl error, w1) \<Rightarrow> (Inl error, w1)
         | (Inr result, w1) \<Rightarrow>
             (let a = compileDataCount w1;
                  w2 = w1\<lparr>compileDatas := (compileDatas w1)(a := result\<lparr>cd_scriptData := scriptData\<rparr>),
                          compileDataCount := Suc a\<rparr>;
                  w3 = updEntry e (\<lambda>en. en\<lparr>compileData := Some a\<rparr>) w2;
                  w4 = updPackage (package en)
                         (\<lambda>p. p\<lparr>cache_compile := (cache_compile p)(cacheName en \<mapsto> a)\<rparr>) w3;
                  w5 = (if cd_sourceType (compileDatas w4 a) = SOURCE_TYPE_MODULE
                        then updEntry e (\<lambda>en. en\<lparr>type := TYPE_ESM\<rparr>) w4 else w4);
                  w6 = (if isDefaultPkg \<and> type (entries w5 e) = TYPE_CJS \<and>
                           cd_transforms (compileDatas w5 a) = TRANSFORMS_EVAL h
                        then updCompileData a
                               (\<lambda>cd. cd\<lparr>cd_code := Some content, cd_transforms := 0\<rparr>) w5
                        else w5)
              in (Inr a, w6)))"

text \<open>
  The CompileData that the local variable \<^verbatim>\<open>compileData\<close> of \<^verbatim>\<open>compile\<close> holds after
  \<^verbatim>\<open>if (compileData === null) { ... }\<close>: the one of the entry, the one found in the cache
  when it has no transforms, a freshly compiled one otherwise; or the error that
  \<^verbatim>\<open>tryCompile\<close> has thrown.
\<close>

definition obtainCompileData ::
    "host \<Rightarrow> nat \<Rightarrow> world \<Rightarrow> nat \<Rightarrow> string \<Rightarrow> string \<Rightarrow> (js_error + nat) \<times> world" where
  "obtainCompileData h caller w e content filename =
     (case compileData (entries w e) of
        Some a \<Rightarrow> (Inr a, w)
      | None \<Rightarrow>
          (case CachingCompiler_from w e of
             (None, w1) \<Rightarrow> compileFresh h caller w1 e content filename None
           | (Some a, w1) \<Rightarrow>
               if cd_transforms (compileDatas w1 a) \<noteq> 0
               then compileFresh h caller w1 e content filename (cd_scriptData (compileDatas w1 a))
               else (Inr a, w1)))"

text \<open>The first part of \<^verbatim>\<open>compile\<close>, to the point where \<^verbatim>\<open>compileData.code\<close> is set.\<close>

definition resolveCompileData ::
    "host \<Rightarrow> nat \<Rightarrow> world \<Rightarrow> nat \<Rightarrow> string \<Rightarrow> string \<Rightarrow> (js_error + nat) \<times> world" where
  "resolveCompileData h caller w e content filename =
     (case obtainCompileData h caller w e content filename of
        (Inl error, w1) \<Rightarrow> (Inl error, w1)
      | (Inr a, w1) \<Rightarrow> (Inr a, defaultCode a content w1))"

subsection \<open>\<^verbatim>\<open>tryRun\<close>\<close>

definition useAsync :: "host \<Rightarrow> world \<Rightarrow> nat \<Rightarrow> bool" where
  "useAsync h w e =
     (opt_await (packages w (package (entries w e))) \<and> support_await h \<and>
      extname (entries w e) \<noteq> ''.mjs'')"

definition useSourceMap :: "host \<Rightarrow> world \<Rightarrow> nat \<Rightarrow> nat \<Rightarrow> bool" where
  "useSourceMap h w e a =
     (if DEVELOPMENT h \<or> ELECTRON_RENDERER h \<or> NDB h \<or> FLAGS_inspect h \<or>
         opt_sourceMap (packages w (package (entries w e)))
      then getSourceMappingURL h (cd_code (compileDatas w a)) = []
      else False)"

text \<open>
  The local variables \<^verbatim>\<open>threw\<close>, \<^verbatim>\<open>error\<close> and \<^verbatim>\<open>result\<close>: \<open>thrown\<close> is \<open>Some error\<close>
  when \<^verbatim>\<open>threw\<close> is true.
\<close>

record run_locals =
  thrown :: "js_error option"
  result :: js_value

definition typeError :: js_error where
  "typeError = \<lparr>err_name = ''TypeError'', err_message = [], err_line = None,
                 err_column = None, err_inModule = False, err_stack = []\<rparr>"

text \<open>
  The runtime object of the entry: the one it has, a new one from \<^verbatim>\<open>Runtime.enable\<close>
  for an ESM entry or a CompileData with transforms, a new plain object otherwise.
\<close>

definition obtainRuntime :: "nat \<Rightarrow> nat \<Rightarrow> world \<Rightarrow> world" where
  "obtainRuntime e a w =
     (case runtime (entries w e) of
        Some rt \<Rightarrow> w
      | None \<Rightarrow>
          (case GenericObject_create w of
             (obj, w1) \<Rightarrow>
               if type (entries w e) = TYPE_ESM \<or> cd_transforms (compileDatas w a) \<noteq> 0
               then Runtime_enable e obj w1
               else setRunResult e None w1))"

text \<open>
  The first pass, taken when \<^verbatim>\<open>runtime._runResult\<close> is undefined: the source is
  rendered; an ESM entry runs \<^verbatim>\<open>mod._compile(source, filename)\<close>, a CJS entry only
  creates its generator.

  Modelled from the spec: the executed wrapper of an ESM entry stores the execution
  continuation in \<^verbatim>\<open>runtime._runResult\<close> ("created only on first pass and then reused
  across resumption steps"); that code is the Runtime Bridge's, not the driver's.
\<close>

definition firstPassRun ::
    "host \<Rightarrow> nat \<Rightarrow> nat \<Rightarrow> string \<Rightarrow> bool \<Rightarrow> bool \<Rightarrow> world \<Rightarrow> run_locals \<times> world" where
  "firstPassRun h e a filename async cjsVars w =
     (let source = compileSource h (compileDatas w a)
                     \<lparr>s_async = async, s_cjsVars = cjsVars,
                      s_runtimeName = runtimeName (entries w e),
                      s_sourceMap = useSourceMap h w e a\<rparr>;
          w1 = setRunning e True w
      in if type (entries w e) = TYPE_ESM then
           (case module_compile h w1 e source filename of
              Inr v \<Rightarrow>
                (\<lparr>thrown = None, result = v\<rparr>,
                 setRunning e False
                   (setRunResult e (Some (GenHost 0)) (log (EvModuleCompile e source filename) w1)))
            | Inl error \<Rightarrow>
                (\<lparr>thrown = Some error, result = Undefined\<rparr>,
                 setRunning e False (log (EvModuleCompile e source filename) w1)))
         else
           (\<lparr>thrown = None, result = Undefined\<rparr>,
            setRunning e False
              (setRunResult e (Some (GenWrapper SuspendedStart source filename)) w1)))"

text \<open>
  \<^verbatim>\<open>_runResult.next()\<close>. The generator of a CJS entry runs to its \<^verbatim>\<open>yield\<close> first and
  calls \<^verbatim>\<open>_compile\<close> when it is resumed; a generator that has returned or thrown is
  completed. Where \<^verbatim>\<open>_runResult\<close> is undefined the call throws a TypeError.
\<close>

definition runResult_next :: "host \<Rightarrow> nat \<Rightarrow> world \<Rightarrow> (js_error + js_value) \<times> world" where
  "runResult_next h e w =
     (case runResultOf w e of
        None \<Rightarrow> (Inl typeError, w)
      | Some (GenWrapper SuspendedStart source filename) \<Rightarrow>
          (Inr Undefined, setRunResult e (Some (GenWrapper SuspendedYield source filename)) w)
      | Some (GenWrapper SuspendedYield source filename) \<Rightarrow>
          (module_compile h w e source filename,
           setRunResult e (Some (GenWrapper Completed source filename))
             (log (EvModuleCompile e source filename) w))
      | Some (GenWrapper Completed source filename) \<Rightarrow> (Inr Undefined, w)
      | Some (GenHost n) \<Rightarrow>
          (generator_next h w e n, setRunResult e (Some (GenHost (Suc n))) w))"

text \<open>
  \<^verbatim>\<open>if (! threw && ! parsing && firstPass)\<close>: the first \<^verbatim>\<open>next()\<close>, whose value is
  dropped.
\<close>

definition observeStart ::
    "host \<Rightarrow> nat \<Rightarrow> bool \<Rightarrow> bool \<Rightarrow> run_locals \<times> world \<Rightarrow> run_locals \<times> world" where
  "observeStart h e parsing0 firstPass lw =
     (case lw of (l, w) \<Rightarrow>
        if thrown l = None \<and> \<not> parsing0 \<and> firstPass then
          (case runResult_next h e (setRunning e True w) of
             (Inr v, w1) \<Rightarrow> (l, setRunning e False w1)
           | (Inl error, w1) \<Rightarrow> (l\<lparr>thrown := Some error\<rparr>, setRunning e False w1))
        else (l, w))"

text \<open>The error \<^verbatim>\<open>new errors.SyntaxError({ input: "" }, ILLEGAL_AWAIT_IN_NON_ASYNC_FUNCTION)\<close>
  with the column, the module flag and the line that \<^verbatim>\<open>tryRun\<close> assigns.\<close>

definition awaitError :: "host \<Rightarrow> location \<Rightarrow> js_error" where
  "awaitError h loc =
     \<lparr>err_name = ''SyntaxError'', err_message = ILLEGAL_AWAIT_IN_NON_ASYNC_FUNCTION h,
      err_line = Some (loc_line loc), err_column = Some (loc_column loc),
      err_inModule = True, err_stack = []\<rparr>"

text \<open>The check of \<^verbatim>\<open>compileData.firstAwaitOutsideFunction\<close>.\<close>

definition validateAwait ::
    "host \<Rightarrow> nat \<Rightarrow> nat \<Rightarrow> bool \<Rightarrow> bool \<Rightarrow> run_locals \<times> world \<Rightarrow> run_locals \<times> world" where
  "validateAwait h e a async isESM lw =
     (case lw of (l, w) \<Rightarrow>
        (case cd_firstAwaitOutsideFunction (compileDatas w a) of
           None \<Rightarrow> (l, w)
         | Some firstAwaitOutsideFunction \<Rightarrow>
             if thrown l = None \<and> \<not> running (entries w e) \<and> async \<and> isESM \<and>
                \<not> isObjectEmpty (getters (entries w e))
             then (l\<lparr>thrown := Some (awaitError h firstAwaitOutsideFunction)\<rparr>, w)
             else (l, w)))"

text \<open>\<^verbatim>\<open>if (! threw && ! entry.running)\<close>: the \<^verbatim>\<open>next()\<close> whose value is the result.\<close>

definition readResult :: "host \<Rightarrow> nat \<Rightarrow> run_locals \<times> world \<Rightarrow> run_locals \<times> world" where
  "readResult h e lw =
     (case lw of (l, w) \<Rightarrow>
        if thrown l = None \<and> \<not> running (entries w e) then
          (case runResult_next h e (setRunning e True w) of
             (Inr v, w1) \<Rightarrow> (l\<lparr>result := v\<rparr>, setRunning e False w1)
           | (Inl error, w1) \<Rightarrow> (l\<lparr>thrown := Some error\<rparr>, setRunning e False w1))
        else (l, w))"

text \<open>
  An assignment to \<^verbatim>\<open>mod.loaded\<close> and a read of it. While the accessor of \<^verbatim>\<open>tryRun\<close>
  is installed, a read gives \<^verbatim>\<open>false\<close> and an assignment runs its setter:
  \<^verbatim>\<open>if (value) { setProperty(this, "loaded", value); entry.updateBindings();
  entry.loaded() }\<close>.

  Modelled from the spec: \<^verbatim>\<open>setProperty\<close> is an imported utility; it "forwards the
  real value", that is, it defines \<^verbatim>\<open>loaded\<close> as a plain data property with that value.
\<close>

definition assign_loaded :: "nat \<Rightarrow> js_value \<Rightarrow> world \<Rightarrow> world" where
  "assign_loaded e v w =
     (case module_loaded (entries w e) of
        LoadedData old \<Rightarrow> updEntry e (\<lambda>en. en\<lparr>module_loaded := LoadedData v\<rparr>) w
      | LoadedAccessor \<Rightarrow>
          if truthy v
          then Entry_loaded e (Entry_updateBindings e
                 (updEntry e (\<lambda>en. en\<lparr>module_loaded := LoadedData v\<rparr>) w))
          else w)"

definition read_loaded :: "world \<Rightarrow> nat \<Rightarrow> js_value" where
  "read_loaded w e =
     (case module_loaded (entries w e) of LoadedData v \<Rightarrow> v | LoadedAccessor \<Rightarrow> Boolean False)"

text \<open>The end of \<^verbatim>\<open>tryRun\<close> when nothing was thrown.\<close>

definition completeRun :: "nat \<Rightarrow> bool \<Rightarrow> bool \<Rightarrow> bool \<Rightarrow> js_value \<Rightarrow> world \<Rightarrow> (js_error + js_value) \<times> world" where
  "completeRun e parsing0 firstPass isESM res w =
     (let w1 = setState e (if parsing0 then STATE_PARSING_COMPLETED else STATE_EXECUTION_COMPLETED) w
      in if isESM then
           (Inr res, updEntry e (\<lambda>en. en\<lparr>module_loaded := LoadedAccessor\<rparr>) w1)
         else if \<not> parsing0 \<and> firstPass then
           (Inr res, Entry_updateBindings e (Entry_loaded e (assign_loaded e (Boolean True) w1)))
         else (Inr res, w1))"

text \<open>The end of \<^verbatim>\<open>tryRun\<close> when \<^verbatim>\<open>error\<close> was thrown.\<close>

definition failRun :: "host \<Rightarrow> nat \<Rightarrow> string \<Rightarrow> bool \<Rightarrow> js_error \<Rightarrow> world \<Rightarrow> (js_error + js_value) \<times> world" where
  "failRun h e filename isESM error w =
     (let w1 = setState e STATE_EXECUTION_COMPLETED w
      in if opt_debug (packages w1 (defaultPkg w1)) \<or> \<not> isStackTraceMaskable h error
         then (Inl error, w1)
         else
           (let message = err_message error;
                name = err_name error;
                w2 = (if isESM \<and>
                         (name = ''SyntaxError'' \<or>
                          (name = ''ReferenceError'' \<and> exportsRegExp_test message))
                      then updPackage (package (entries w1 e)) (\<lambda>p. p\<lparr>cache_dirty := True\<rparr>) w1
                      else w1);
                filename' = (case getLocationFromStackTrace h error of
                               Some loc \<Rightarrow> loc | None \<Rightarrow> filename)
            in (Inl (maskStackTrace h error
                       \<lparr>m_content = None, m_filename = filename', m_inModule = Some isESM\<rparr>),
                w2)))"

text \<open>
  \<^verbatim>\<open>tryRun\<close> reads \<^verbatim>\<open>entry.compileData\<close> without a check. Where it is \<^verbatim>\<open>null\<close> a
  TypeError escapes: from \<^verbatim>\<open>compileData.transforms\<close> when a CJS entry has no runtime
  yet, and otherwise, once the runtime and the state are set, from the first use after
  that.
\<close>

definition tryRun_noCompileData :: "nat \<Rightarrow> world \<Rightarrow> (js_error + js_value) \<times> world" where
  "tryRun_noCompileData e w =
     (if runtime (entries w e) = None \<and> type (entries w e) \<noteq> TYPE_ESM then (Inl typeError, w)
      else
        (let w1 = (case runtime (entries w e) of
                     Some rt \<Rightarrow> w
                   | None \<Rightarrow> (case GenericObject_create w of (obj, w') \<Rightarrow> Runtime_enable e obj w'))
         in (Inl typeError,
             setState e (if parsing w then STATE_PARSING_STARTED else STATE_EXECUTION_STARTED) w1)))"

text \<open>
  \<^verbatim>\<open>tryRun\<close> up to the first \<^verbatim>\<open>next()\<close>: the runtime, the started state, the first
  pass and the first \<^verbatim>\<open>next()\<close>.
\<close>

definition runStart ::
    "host \<Rightarrow> nat \<Rightarrow> nat \<Rightarrow> string \<Rightarrow> world \<Rightarrow> run_locals \<times> world" where
  "runStart h e a filename w =
     (let parsing0 = parsing w;
          async = useAsync h w e;
          cjsVars = (opt_cjs_vars (packages w (package (entries w e))) \<and>
                     extname (entries w e) \<noteq> ''.mjs'');
          w1 = obtainRuntime e a w;
          w2 = setState e (if parsing0 then STATE_PARSING_STARTED else STATE_EXECUTION_STARTED) w1;
          firstPass = (runResultOf w2 e = None);
          lw3 = (if firstPass then firstPassRun h e a filename async cjsVars w2
                 else (\<lparr>thrown = None, result = Undefined\<rparr>, w2))
      in observeStart h e parsing0 firstPass lw3)"

text \<open>
  \<^verbatim>\<open>tryRun\<close> up to the second \<^verbatim>\<open>next()\<close>: after \<open>runStart\<close>, the check of a top-level
  \<^verbatim>\<open>await\<close> and the read of the result.
\<close>

definition runBody ::
    "host \<Rightarrow> nat \<Rightarrow> nat \<Rightarrow> string \<Rightarrow> world \<Rightarrow> run_locals \<times> world" where
  "runBody h e a filename w =
     readResult h e
       (validateAwait h e a (useAsync h w e) (type (entries w e) = TYPE_ESM)
          (runStart h e a filename w))"

definition firstPassOf :: "nat \<Rightarrow> nat \<Rightarrow> world \<Rightarrow> bool" where
  "firstPassOf e a w = (runResultOf (obtainRuntime e a w) e = None)"

definition tryRun :: "host \<Rightarrow> world \<Rightarrow> nat \<Rightarrow> string \<Rightarrow> (js_error + js_value) \<times> world" where
  "tryRun h w e filename =
     (case compileData (entries w e) of
        None \<Rightarrow> tryRun_noCompileData e w
      | Some a \<Rightarrow>
          (case runBody h e a filename w of
             (l, w') \<Rightarrow>
               (case thrown l of
                  None \<Rightarrow>
                    completeRun e (parsing w) (firstPassOf e a w)
                      (type (entries w e) = TYPE_ESM) (result l) w'
                | Some error \<Rightarrow>
                    failRun h e filename (type (entries w e) = TYPE_ESM) error w')))"

subsection \<open>\<^verbatim>\<open>compile\<close>\<close>

text \<open>
  The second run of a circular ESM entry: the entry is marked, its runtime dropped, the
  module's exports replaced, and the code with the temporal dead zones, if there is one,
  becomes the code.
\<close>

definition rerunCircular :: "host \<Rightarrow> world \<Rightarrow> nat \<Rightarrow> nat \<Rightarrow> string \<Rightarrow> (js_error + js_value) \<times> world" where
  "rerunCircular h w e a filename =
     (let w1 = updEntry e (\<lambda>en. en\<lparr>circular := True, runtime := None\<rparr>) w
      in case GenericObject_create w1 of
           (obj, w2) \<Rightarrow>
             (let w3 = updEntry e (\<lambda>en. en\<lparr>module_exports := obj\<rparr>) w2;
                  w4 = (case cd_codeWithTDZ (compileDatas w3 a) of
                          Some codeWithTDZ \<Rightarrow>
                            updCompileData a (\<lambda>cd. cd\<lparr>cd_code := Some codeWithTDZ\<rparr>) w3
                        | None \<Rightarrow> w3)
              in tryRun h w4 e filename))"

text \<open>
  The body of the \<^verbatim>\<open>try\<close> statement of \<^verbatim>\<open>compile\<close>, to the updates that follow the
  runs: the run, the search for a cycle when \<^verbatim>\<open>compileData.circular\<close> is \<^verbatim>\<open>-1\<close>, the
  second run of a circular entry, \<^verbatim>\<open>updateBindings\<close> and \<^verbatim>\<open>finalizeNamespace\<close>.
\<close>

definition runDeclarative :: "host \<Rightarrow> world \<Rightarrow> nat \<Rightarrow> nat \<Rightarrow> string \<Rightarrow> (js_error + js_value) \<times> world" where
  "runDeclarative h w e a filename =
     (case tryRun h w e filename of
        (Inl error, w1) \<Rightarrow> (Inl error, w1)
      | (Inr res, w1) \<Rightarrow>
          (let w2 = (if cd_circular (compileDatas w1 a) = - 1
                     then updCompileData a
                            (\<lambda>cd. cd\<lparr>cd_circular := (if fst (isDescendant w1 e e None) then 1 else 0)\<rparr>) w1
                     else w1)
           in case (if cd_circular (compileDatas w2 a) = 1 then rerunCircular h w2 e a filename
                    else (Inr res, w2)) of
                (Inl error, w3) \<Rightarrow> (Inl error, w3)
              | (Inr res', w3) \<Rightarrow>
                  (let w4 = Entry_updateBindings e w3;
                       w5 = (if namespaceFinalized (entries w4 e) \<noteq> NAMESPACE_FINALIZATION_DEFERRED h
                             then Entry_finalizeNamespace e w4 else w4)
                   in (Inr res', w5))))"

text \<open>The loop of \<^verbatim>\<open>compile\<close> over the stack frames: some frame has an absolute file
  name that is not a path of the loader's own.\<close>

fun externalFrame :: "host \<Rightarrow> string list \<Rightarrow> bool" where
  "externalFrame h [] = False"
| "externalFrame h (framePath # frames) =
     (if isAbsolute h framePath \<and> \<not> isOwnPath h framePath then True
      else externalFrame h frames)"

text \<open>The conditions under which \<^verbatim>\<open>compile\<close>, once it has reached the branch of a
  function-valued \<^verbatim>\<open>fallback\<close>, returns \<^verbatim>\<open>fallback()\<close>.\<close>

definition fallbackWanted :: "host \<Rightarrow> world \<Rightarrow> nat \<Rightarrow> bool" where
  "fallbackWanted h w e =
     (let parentEntry = module_parent (entries w e);
          parentIsESM = (case parentEntry of None \<Rightarrow> False
                         | Some p \<Rightarrow> type (entries w p) = TYPE_ESM);
          parentPkg = (case parentEntry of None \<Rightarrow> None | Some p \<Rightarrow> Some (package (entries w p)));
          isDefaultPkg = (package (entries w e) = defaultPkg w)
      in \<not> parentIsESM \<and> (isDefaultPkg \<or> parentPkg = Some (defaultPkg w)) \<and>
         externalFrame h (getStackFrames h w))"

text \<open>
  \<^verbatim>\<open>compile(caller, entry, content, filename, fallback)\<close>. \<open>fallback\<close> is \<open>Some f\<close> when
  \<^verbatim>\<open>typeof fallback === "function"\<close>. The \<^verbatim>\<open>finally\<close> clause is the update of \<open>parsing\<close>
  that follows \<open>runDeclarative\<close> on both of its outcomes.
\<close>

definition compile ::
    "host \<Rightarrow> nat \<Rightarrow> world \<Rightarrow> nat \<Rightarrow> string \<Rightarrow> string \<Rightarrow> (world \<Rightarrow> js_error + js_value) option
       \<Rightarrow> (js_error + js_value) \<times> world" where
  "compile h caller w e content filename fallback =
     (case resolveCompileData h caller w e content filename of
        (Inl error, w1) \<Rightarrow> (Inl error, w1)
      | (Inr a, w1) \<Rightarrow>
          (let isESM = (type (entries w1 e) = TYPE_ESM);
               isSideloaded = (\<not> parsing w1 \<and> isESM \<and> state (entries w1 e) = STATE_INITIAL)
           in if \<not> parsing w1 \<and> \<not> isSideloaded then tryRun h w1 e filename
              else
                (let w2 = (if isSideloaded
                           then (setState e STATE_PARSING_STARTED w1)\<lparr>parsing := True\<rparr>
                           else w1)
                 in if isESM then
                      (case runDeclarative h w2 e a filename of
                         (r, w3) \<Rightarrow>
                           (let w4 = (if isSideloaded then w3\<lparr>parsing := False\<rparr> else w3)
                            in case r of
                                 Inl error \<Rightarrow> (Inl error, w4)
                               | Inr res \<Rightarrow>
                                   if \<not> isSideloaded then (Inr res, w4)
                                   else tryRun h w4 e filename))
                    else
                      (case fallback of
                         Some f \<Rightarrow>
                           if fallbackWanted h w2 e then (f w2, log EvFallback w2)
                           else tryRun h w2 e filename
                       | None \<Rightarrow> tryRun h w2 e filename))))"

subsection \<open>Observations\<close>

text \<open>
  What the properties observe: the calls of the Caching Compiler and the calls of
  \<^verbatim>\<open>mod._compile\<close> for an entry that a trace records, a sequence of assignments
  to \<^verbatim>\<open>mod.loaded\<close>, and a sequence of calls of \<^verbatim>\<open>compile\<close>.
\<close>

fun isCachingCompile :: "event \<Rightarrow> bool" where
  "isCachingCompile (EvCachingCompile c) = True"
| "isCachingCompile ev = False"

definition compilerCalls :: "world \<Rightarrow> nat" where
  "compilerCalls w = length (filter isCachingCompile (trace w))"

fun isModuleCompile :: "nat \<Rightarrow> event \<Rightarrow> bool" where
  "isModuleCompile e (EvModuleCompile e' source filename) = (e' = e)"
| "isModuleCompile e ev = False"

definition moduleCompiles :: "nat \<Rightarrow> world \<Rightarrow> nat" where
  "moduleCompiles e w = length (filter (isModuleCompile e) (trace w))"

definition assign_all :: "nat \<Rightarrow> js_value list \<Rightarrow> world \<Rightarrow> world" where
  "assign_all e vs w = foldl (\<lambda>w v. assign_loaded e v w) w vs"



subsection \<open>The state machine of the specification\<close>

text \<open>
  The transitions that the specification lists for \<^verbatim>\<open>entry.state\<close> on a run that does
  not throw (\<open>INITIAL \<rightarrow> PARSING_STARTED \<rightarrow> PARSING_COMPLETED\<close> and \<open>INITIAL \<rightarrow>
  EXECUTION_STARTED \<rightarrow> EXECUTION_COMPLETED\<close>), and the paths along them.
\<close>

fun machine_step :: "entry_state \<Rightarrow> entry_state \<Rightarrow> bool" where
  "machine_step STATE_INITIAL STATE_PARSING_STARTED = True"
| "machine_step STATE_PARSING_STARTED STATE_PARSING_COMPLETED = True"
| "machine_step STATE_INITIAL STATE_EXECUTION_STARTED = True"
| "machine_step STATE_EXECUTION_STARTED STATE_EXECUTION_COMPLETED = True"
| "machine_step s s' = False"

definition machine_path :: "entry_state \<Rightarrow> entry_state \<Rightarrow> bool" where
  "machine_path s s' =
     (s = s' \<or> machine_step s s' \<or>
      list_ex (\<lambda>m. machine_step s m \<and> machine_step m s')
        [STATE_INITIAL, STATE_PARSING_STARTED, STATE_PARSING_COMPLETED,
         STATE_EXECUTION_STARTED, STATE_EXECUTION_COMPLETED])"

subsection \<open>What a run leaves unchanged\<close>

text \<open>
  \<open>runFrame e w w'\<close>: the state \<open>w'\<close> differs from \<open>w\<close> at most in the state, the
  runtime, the running flag and the \<^verbatim>\<open>loaded\<close> property of the entry \<open>e\<close>, in the dirty flags
  of the packages, in the number of plain objects, and by events of the trace that are
  neither calls of the Caching Compiler nor of the fallback. \<open>declFrame\<close> also lets the
  circular mark and the exports of \<open>e\<close> change, as well as the code and the circular mark
  of the CompileData objects, and allows the call of the fallback in the trace.
  \<open>runPotential\<close> adds to the calls of \<^verbatim>\<open>mod._compile\<close> made so far the one that a
  generator of \<^verbatim>\<open>tryRun\<close> still has to make.
\<close>

definition entryCore :: "entry \<Rightarrow> entry" where
  "entryCore en = en\<lparr>state := STATE_INITIAL, runtime := None, running := False,
                      module_loaded := LoadedAccessor\<rparr>"

definition packageCore :: "package \<Rightarrow> package" where
  "packageCore p = p\<lparr>cache_dirty := False\<rparr>"

fun driverEvent :: "event \<Rightarrow> bool" where
  "driverEvent (EvCachingCompile c) = False"
| "driverEvent EvFallback = False"
| "driverEvent ev = True"

definition runFrame :: "nat \<Rightarrow> world \<Rightarrow> world \<Rightarrow> bool" where
  "runFrame e w w' \<longleftrightarrow>
     parsing w' = parsing w \<and> compileDatas w' = compileDatas w \<and>
     compileDataCount w' = compileDataCount w \<and> entryCount w' = entryCount w \<and>
     defaultPkg w' = defaultPkg w \<and> objects w \<le> objects w' \<and>
     (\<forall>e'. e' \<noteq> e \<longrightarrow> entries w' e' = entries w e') \<and>
     entryCore (entries w' e) = entryCore (entries w e) \<and>
     (\<forall>p. packageCore (packages w' p) = packageCore (packages w p)) \<and>
     (\<exists>evs. trace w' = trace w @ evs \<and> list_all driverEvent evs)"

fun postEvent :: "event \<Rightarrow> bool" where
  "postEvent (EvCachingCompile c) = False"
| "postEvent ev = True"

definition entryCore2 :: "entry \<Rightarrow> entry" where
  "entryCore2 en = (entryCore en)\<lparr>circular := False, module_exports := Undefined\<rparr>"

definition cdCore :: "compileData \<Rightarrow> compileData" where
  "cdCore cd = cd\<lparr>cd_code := None, cd_circular := 0\<rparr>"

definition declFrame :: "nat \<Rightarrow> world \<Rightarrow> world \<Rightarrow> bool" where
  "declFrame e w w' \<longleftrightarrow>
     parsing w' = parsing w \<and> compileDataCount w' = compileDataCount w \<and>
     entryCount w' = entryCount w \<and> defaultPkg w' = defaultPkg w \<and> objects w \<le> objects w' \<and>
     (\<forall>e'. e' \<noteq> e \<longrightarrow> entries w' e' = entries w e') \<and>
     entryCore2 (entries w' e) = entryCore2 (entries w e) \<and>
     (\<forall>p. packageCore (packages w' p) = packageCore (packages w p)) \<and>
     (\<forall>a. cdCore (compileDatas w' a) = cdCore (compileDatas w a)) \<and>
     (\<exists>evs. trace w' = trace w @ evs \<and> list_all postEvent evs)"

definition pendingCompile :: "world \<Rightarrow> nat \<Rightarrow> nat" where
  "pendingCompile w e =
     (case runResultOf w e of
        Some (GenWrapper SuspendedStart source filename) \<Rightarrow> 1
      | Some (GenWrapper SuspendedYield source filename) \<Rightarrow> 1
      | _ \<Rightarrow> 0)"

definition runPotential :: "world \<Rightarrow> nat \<Rightarrow> nat" where
  "runPotential w e = moduleCompiles e w + pendingCompile w e"

subsection \<open>Concrete hosts and states\<close>

text \<open>
  A host whose collaborators all succeed, one whose \<^verbatim>\<open>mod._compile\<close> throws a
  ReferenceError about \<^verbatim>\<open>exports\<close>, one whose Caching Compiler throws it; a state with one
  ESM entry of the default package that has its CompileData and has not run, and
  variants of it.
\<close>

definition demoHost :: host where
  "demoHost =
     \<lparr>TRANSFORMS_EVAL = 4, NAMESPACE_FINALIZATION_DEFERRED = - 1,
      ILLEGAL_AWAIT_IN_NON_ASYNC_FUNCTION = codeUnits ''await is only valid in async function'',
      DEVELOPMENT = False, ELECTRON_RENDERER = False, NDB = False, FLAGS_inspect = False,
      support_await = True,
      CachingCompiler_compile = (\<lambda>w content options.
         Inr \<lparr>cd_code = Some content, cd_sourceType = SOURCE_TYPE_SCRIPT, cd_transforms = 4,
              cd_scriptData = None, cd_codeWithTDZ = None, cd_circular = - 1,
              cd_firstAwaitOutsideFunction = None\<rparr>),
      compileSource = (\<lambda>cd options. case cd_code cd of None \<Rightarrow> [] | Some c \<Rightarrow> c),
      getSourceMappingURL = (\<lambda>code. []),
      module_compile = (\<lambda>w e source filename. Inr Undefined),
      generator_next = (\<lambda>w e n. Inr Undefined),
      isStackTraceMaskable = (\<lambda>error. True),
      toExternalError = (\<lambda>error. error),
      captureStackTrace = (\<lambda>error caller. error),
      maskStackTrace = (\<lambda>error options. error),
      getLocationFromStackTrace = (\<lambda>error. None),
      getStackFrames = (\<lambda>w. [''/app/main.js'']),
      isAbsolute = (\<lambda>path. take 1 path = ''/''),
      isOwnPath = (\<lambda>path. False)\<rparr>"

definition exportsError :: js_error where
  "exportsError =
     \<lparr>err_name = ''ReferenceError'', err_message = codeUnits ''exports is not defined'',
      err_line = None, err_column = None, err_inModule = False, err_stack = []\<rparr>"

definition throwingHost :: host where
  "throwingHost = demoHost\<lparr>module_compile := (\<lambda>w e source filename. Inl exportsError)\<rparr>"

text \<open>
  A host whose \<^verbatim>\<open>mod._compile\<close> throws the given error, and a ReferenceError whose message
  names \<^verbatim>\<open>exports\<close> on its second line only.
\<close>

definition throwsHost :: "js_error \<Rightarrow> host" where
  "throwsHost error = demoHost\<lparr>module_compile := (\<lambda>w e source filename. Inl error)\<rparr>"

definition secondLineError :: js_error where
  "secondLineError =
     \<lparr>err_name = ''ReferenceError'',
      err_message = codeUnits ''x is not defined'' @ [0x0A] @ codeUnits ''exports is not defined'',
      err_line = None, err_column = None, err_inModule = False, err_stack = []\<rparr>"

definition failingCompilerHost :: host where
  "failingCompilerHost =
     demoHost\<lparr>CachingCompiler_compile := (\<lambda>w content options. Inl exportsError)\<rparr>"

definition demoPackage :: package where
  "demoPackage =
     \<lparr>opt_mode = MODE_AUTO, opt_await = True, opt_debug = False, opt_sourceMap = False,
      opt_cjs_vars = True, opt_cjs_topLevelReturn = False, cachePath = ''/app/.cache'',
      cache_compile = (\<lambda>name. None), cache_dirty = False\<rparr>"

definition demoCompileData :: compileData where
  "demoCompileData =
     \<lparr>cd_code = Some ''export default 1'', cd_sourceType = SOURCE_TYPE_MODULE,
      cd_transforms = 1, cd_scriptData = None, cd_codeWithTDZ = Some ''export default 1 /* TDZ */'',
      cd_circular = - 1, cd_firstAwaitOutsideFunction = None\<rparr>"

definition demoEntry :: entry where
  "demoEntry =
     \<lparr>extname = ''.js'', cacheName = ''a.js'', mtime = 0, runtimeName = ''_'', package = 0,
      type = TYPE_ESM, state = STATE_INITIAL, compileData = Some 0, runtime = None,
      circular = False, running = False, children = [], getters = [],
      namespaceFinalized = 0, module_exports = Object 0,
      module_loaded = LoadedData (Boolean False), module_parent = None\<rparr>"

definition demoWorld :: world where
  "demoWorld =
     \<lparr>entries = (\<lambda>e. demoEntry), entryCount = 1, packages = (\<lambda>p. demoPackage),
      compileDatas = (\<lambda>a. demoCompileData), compileDataCount = 1, defaultPkg = 0,
      parsing = False, objects = 1, trace = []\<rparr>"

text \<open>
  The entry's CompileData records a top-level \<^verbatim>\<open>await\<close> at line 3, column 0; the entry
  exports nothing in \<open>awaitWorld\<close> and has the getter \<^verbatim>\<open>default\<close> in \<open>awaitExportWorld\<close>.
\<close>

definition awaitWorld :: world where
  "awaitWorld =
     demoWorld\<lparr>compileDatas := (\<lambda>a. demoCompileData
        \<lparr>cd_firstAwaitOutsideFunction := Some \<lparr>loc_line = 3, loc_column = 0\<rparr>\<rparr>)\<rparr>"

definition awaitExportWorld :: world where
  "awaitExportWorld = awaitWorld\<lparr>entries := (\<lambda>e. demoEntry\<lparr>getters := [''default'']\<rparr>)\<rparr>"

text \<open>
  The entry imports itself, and a parse is under way.
\<close>

definition circularWorld :: world where
  "circularWorld =
     demoWorld\<lparr>entries := (\<lambda>e. demoEntry\<lparr>children := [(''./a.js'', 0)]\<rparr>), parsing := True\<rparr>"

text \<open>
  The entry is a CJS entry; in \<open>freshCjsWorld\<close> it has no CompileData yet, and nothing is
  cached for it.
\<close>

definition cjsWorld :: world where
  "cjsWorld =
     demoWorld\<lparr>entries := (\<lambda>e. demoEntry\<lparr>type := TYPE_CJS\<rparr>),
               compileDatas := (\<lambda>a. demoCompileData\<lparr>cd_sourceType := SOURCE_TYPE_SCRIPT,
                                                       cd_transforms := 0\<rparr>)\<rparr>"

definition freshCjsWorld :: world where
  "freshCjsWorld = cjsWorld\<lparr>entries := (\<lambda>e. demoEntry\<lparr>type := TYPE_CJS, compileData := None\<rparr>)\<rparr>"

definition demoFallback :: "world \<Rightarrow> js_error + js_value" where
  "demoFallback w = Inr (String ''fallback'')"

text \<open>
  The state after \<^verbatim>\<open>compile\<close> has processed the ESM entry while another bootstrap held the
  parsing flag.
\<close>

definition parsedWorld :: world where
  "parsedWorld =
     snd (compile demoHost 0 (demoWorld\<lparr>parsing := True\<rparr>) 0 ''export default 1'' ''/app/a.js'' None)"

text \<open>A fallback that throws.\<close>

definition throwingFallback :: "world \<Rightarrow> js_error + js_value" where
  "throwingFallback w = Inl exportsError"

text \<open>
  Two registered CJS entries without a CompileData, of the same package and with the same
  cache name.
\<close>

definition twoEntryWorld :: world where
  "twoEntryWorld = freshCjsWorld\<lparr>entryCount := 2\<rparr>"

text \<open>
  The module that imports itself, outside a parse: its entry is in \<open>STATE_INITIAL\<close>, so that
  \<^verbatim>\<open>compile\<close> starts the parse itself.
\<close>

definition bootstrapWorld :: world where
  "bootstrapWorld = circularWorld\<lparr>parsing := False\<rparr>"

text \<open>
  A host on which the body of a module throws at its first step unless the code of the
  module is its code with the temporal dead zones; and the state in which a first attempt to
  load the module that imports itself, failed in this way, leaves the loader.
\<close>

definition bodyError :: js_error where
  "bodyError =
     \<lparr>err_name = ''Error'', err_message = codeUnits ''not ready'',
      err_line = None, err_column = None, err_inModule = False, err_stack = []\<rparr>"

definition tdzHost :: host where
  "tdzHost =
     demoHost\<lparr>generator_next :=
       (\<lambda>w e n. case compileData (entries w e) of
                    None \<Rightarrow> Inr Undefined
                  | Some a \<Rightarrow>
                      if n = 0 \<and> cd_code (compileDatas w a) \<noteq> cd_codeWithTDZ (compileDatas w a)
                      then Inl bodyError else Inr Undefined)\<rparr>"


section \<open>Properties\<close>

subsection \<open>The search for a cycle\<close>

lemma isDescendant_seen_grows:
  "(case seen0 of None \<Rightarrow> {} | Some seen \<Rightarrow> seen) \<subseteq> snd (isDescendant w entry parentEntry seen0)"
  "seen \<subseteq> snd (isDescendant_children w entry cs seen)"
proof (induction w entry parentEntry seen0 and w entry cs seen
    rule: isDescendant_isDescendant_children.induct)
  case (1 w entry parentEntry seen0)
  then show ?case by (auto split: option.splits)
next
  case (2 w entry seen)
  show ?case by simp
next
  case (3 w entry childEntry rest seen)
  show ?case
  proof (cases "entry = childEntry")
    case True
    then show ?thesis by simp
  next
    case False
    obtain b s where r: "isDescendant w entry childEntry (Some seen) = (b, s)"
      by (cases "isDescendant w entry childEntry (Some seen)")
    from 3(1) False r have s: "seen \<subseteq> s" by simp
    show ?thesis
    proof (cases b)
      case True
      with False r s show ?thesis by simp
    next
      case bF: False
      from 3(2) False r bF have "s \<subseteq> snd (isDescendant_children w entry rest s)" by simp
      with False r s bF show ?thesis by auto
    qed
  qed
qed

lemma isDescendant_bounded_agrees:
  "card ({..<entryCount w} - (case seen0 of None \<Rightarrow> {} | Some seen \<Rightarrow> seen)) < d \<Longrightarrow>
     isDescendant_bounded d w entry parentEntry seen0 = Some (isDescendant w entry parentEntry seen0)"
  "cs = [] \<or> card ({..<entryCount w} - seen) < d \<Longrightarrow>
     isDescendant_children_bounded d w entry cs seen = Some (isDescendant_children w entry cs seen)"
proof (induction w entry parentEntry seen0 and w entry cs seen arbitrary: d and d
    rule: isDescendant_isDescendant_children.induct)
  case (1 w entry parentEntry seen0)
  from 1(3) obtain d' where d: "d = Suc d'" by (cases d) auto
  show ?case
  proof (cases seen0)
    case None
    have "childEntries w parentEntry = [] \<or> card ({..<entryCount w} - {parentEntry}) < d'"
      using 1(3) d None card_unseen_insert [of parentEntry "{}" "entryCount w"]
      by (cases "parentEntry < entryCount w") (auto simp: childEntries_def)
    from 1(1) [OF None this] show ?thesis using d None by simp
  next
    case (Some seen)
    show ?thesis
    proof (cases "parentEntry \<in> seen")
      case True
      then show ?thesis using d Some by simp
    next
      case False
      have "childEntries w parentEntry = [] \<or> card ({..<entryCount w} - insert parentEntry seen) < d'"
        using 1(3) d Some False card_unseen_insert [of parentEntry seen "entryCount w"]
        by (cases "parentEntry < entryCount w") (auto simp: childEntries_def)
      from 1(2) [OF Some False this] show ?thesis using d Some False by simp
    qed
  qed
next
  case (2 w entry seen)
  show ?case by simp
next
  case (3 w entry childEntry rest seen)
  show ?case
  proof (cases "entry = childEntry")
    case True
    then show ?thesis by simp
  next
    case False
    from 3(3) have c: "card ({..<entryCount w} - seen) < d" by simp
    obtain b s where r: "isDescendant w entry childEntry (Some seen) = (b, s)"
      by (cases "isDescendant w entry childEntry (Some seen)")
    from 3(1) [OF False, of d] c r
    have br: "isDescendant_bounded d w entry childEntry (Some seen) = Some (b, s)" by simp
    show ?thesis
    proof (cases b)
      case True
      then show ?thesis using False r br by simp
    next
      case bF: False
      from isDescendant_seen_grows(1) [of "Some seen" w entry childEntry] r
      have "seen \<subseteq> s" by simp
      from card_unseen_mono [OF this, of "entryCount w"] c
      have "rest = [] \<or> card ({..<entryCount w} - s) < d" by simp
      with 3(2) [of b s d] False r bF
      have "isDescendant_children_bounded d w entry rest s = Some (isDescendant_children w entry rest s)"
        by simp
      then show ?thesis using False r br bF by simp
    qed
  qed
qed

text \<open>
  C10. On every registry of entries, with cycles and self-references or without, the
  depth-first search \<^verbatim>\<open>isDescendant(entry, parentEntry)\<close> terminates (the function is total),
  and its recursion is never deeper than the number of entries allows: an entry is put into
  \<^verbatim>\<open>seen\<close> before its children are visited and is not visited again, so a budget of one
  nested call for each registered entry, and one more, is never used up.
\<close>

theorem isDescendant_depth_bounded:
  "isDescendant_bounded (Suc (entryCount w)) w entry parentEntry None =
     Some (isDescendant w entry parentEntry None)"
  by (rule isDescendant_bounded_agrees(1)) simp

subsection \<open>A run of \<^verbatim>\<open>tryRun\<close> and what it leaves unchanged\<close>

lemmas store_defs = log_def updEntry_def updPackage_def updCompileData_def setState_def
  setRunning_def setRunResult_def runResultOf_def GenericObject_create_def Runtime_enable_def
  Entry_updateBindings_def Entry_loaded_def Entry_finalizeNamespace_def

lemmas driver_defs = compile_def resolveCompileData_def obtainCompileData_def defaultCode_def
  compileFresh_def compileOptions_def tryCompile_def CachingCompiler_from_def sourceTypeOf_def
  tryRun_def runBody_def runStart_def obtainRuntime_def firstPassRun_def runResult_next_def
  observeStart_def validateAwait_def readResult_def completeRun_def failRun_def
  assign_loaded_def read_loaded_def useAsync_def useSourceMap_def firstPassOf_def
  runDeclarative_def rerunCircular_def fallbackWanted_def isObjectEmpty_def awaitError_def
  tryRun_noCompileData_def childEntries_def exportsRegExp_test_def exportsHere_def
  isWordChar_def isLineTerminator_def

lemmas demo_defs = demoHost_def demoPackage_def demoCompileData_def demoEntry_def demoWorld_def
  exportsError_def throwingHost_def failingCompilerHost_def awaitWorld_def awaitExportWorld_def
  throwsHost_def secondLineError_def codeUnits_def throwingFallback_def twoEntryWorld_def
  bootstrapWorld_def bodyError_def tdzHost_def
  circularWorld_def cjsWorld_def freshCjsWorld_def demoFallback_def

lemma runFrame_refl: "runFrame e w w"
  by (simp add: runFrame_def)

lemma runFrame_trans:
  assumes a: "runFrame e w w1" and b: "runFrame e w1 w2"
  shows "runFrame e w w2"
proof -
  from a obtain evs1 where e1: "trace w1 = trace w @ evs1" "list_all driverEvent evs1"
    unfolding runFrame_def by blast
  from b obtain evs2 where e2: "trace w2 = trace w1 @ evs2" "list_all driverEvent evs2"
    unfolding runFrame_def by blast
  have t: "trace w2 = trace w @ (evs1 @ evs2) \<and> list_all driverEvent (evs1 @ evs2)"
    using e1 e2 by simp
  have r: "parsing w2 = parsing w \<and> compileDatas w2 = compileDatas w \<and>
     compileDataCount w2 = compileDataCount w \<and> entryCount w2 = entryCount w \<and>
     defaultPkg w2 = defaultPkg w \<and> objects w \<le> objects w2 \<and>
     (\<forall>e'. e' \<noteq> e \<longrightarrow> entries w2 e' = entries w e') \<and>
     entryCore (entries w2 e) = entryCore (entries w e) \<and>
     (\<forall>p. packageCore (packages w2 p) = packageCore (packages w p))"
    using a b unfolding runFrame_def by simp
  from r t show ?thesis unfolding runFrame_def by blast
qed

lemma runFrame_setState: "runFrame e w (setState e s w)"
  by (simp add: runFrame_def store_defs entryCore_def)

lemma runFrame_setRunning: "runFrame e w (setRunning e b w)"
  by (simp add: runFrame_def store_defs entryCore_def)

lemma runFrame_setRunResult: "runFrame e w (setRunResult e g w)"
  by (simp add: runFrame_def store_defs entryCore_def)

lemma runFrame_log: "driverEvent ev \<Longrightarrow> runFrame e w (log ev w)"
  by (simp add: runFrame_def store_defs)

lemma runFrame_loaded: "runFrame e w (updEntry e (\<lambda>en. en\<lparr>module_loaded := l\<rparr>) w)"
  by (simp add: runFrame_def store_defs entryCore_def)

lemma runFrame_dirty: "runFrame e w (updPackage p (\<lambda>p. p\<lparr>cache_dirty := True\<rparr>) w)"
  by (simp add: runFrame_def store_defs packageCore_def)

lemma runFrame_create: "runFrame e w (snd (GenericObject_create w))"
  by (simp add: runFrame_def store_defs)

lemma runFrame_enable: "runFrame e w (Runtime_enable e obj w)"
  by (simp add: runFrame_def store_defs entryCore_def)

lemmas runFrame_steps = runFrame_refl runFrame_setState runFrame_setRunning runFrame_setRunResult
  runFrame_loaded runFrame_dirty runFrame_create runFrame_enable

lemma runFrame_obtainRuntime: "runFrame e w (obtainRuntime e a w)"
  by (simp add: obtainRuntime_def runFrame_def store_defs entryCore_def split: option.splits)

lemma runFrame_next: "runFrame e w (snd (runResult_next h e w))"
  by (simp add: runResult_next_def runFrame_def store_defs entryCore_def
      split: option.splits generator.splits generator_state.splits)

lemma runFrame_next_running:
  "runFrame e w (setRunning e b' (snd (runResult_next h e (setRunning e b w))))"
  by (rule runFrame_trans [OF runFrame_setRunning
        runFrame_trans [OF runFrame_next runFrame_setRunning]])

lemma runFrame_firstPassRun: "runFrame e w (snd (firstPassRun h e a filename async cjsVars w))"
  by (simp add: firstPassRun_def Let_def runFrame_def store_defs entryCore_def
      split: sum.splits)

lemma runFrame_observeStart: "runFrame e (snd lw) (snd (observeStart h e parsing0 firstPass lw))"
  using runFrame_next_running [of e "snd lw" False h True]
  by (cases lw) (auto simp add: observeStart_def runFrame_refl split: prod.splits sum.splits)

lemma snd_validateAwait: "snd (validateAwait h e a async isESM lw) = snd lw"
  by (cases lw) (simp add: validateAwait_def split: option.splits)

lemma runFrame_readResult: "runFrame e (snd lw) (snd (readResult h e lw))"
  using runFrame_next_running [of e "snd lw" False h True]
  by (cases lw) (auto simp add: readResult_def runFrame_refl split: prod.splits sum.splits)

lemma runFrame_runStart: "runFrame e w (snd (runStart h e a filename w))"
proof -
  let ?w1 = "obtainRuntime e a w"
  let ?w2 = "setState e (if parsing w then STATE_PARSING_STARTED else STATE_EXECUTION_STARTED) ?w1"
  let ?lw3 = "if runResultOf ?w2 e = None
              then firstPassRun h e a filename (useAsync h w e)
                     (opt_cjs_vars (packages w (package (entries w e))) \<and> extname (entries w e) \<noteq> ''.mjs'') ?w2
              else (\<lparr>thrown = None, result = Undefined\<rparr>, ?w2)"
  have b: "runStart h e a filename w = observeStart h e (parsing w) (runResultOf ?w2 e = None) ?lw3"
    by (simp add: runStart_def Let_def)
  have f2: "runFrame e w ?w2"
    by (rule runFrame_trans [OF runFrame_obtainRuntime runFrame_setState])
  have f3: "runFrame e ?w2 (snd ?lw3)"
    by (simp add: runFrame_firstPassRun runFrame_refl)
  have f4: "runFrame e (snd ?lw3) (snd (observeStart h e (parsing w) (runResultOf ?w2 e = None) ?lw3))"
    by (rule runFrame_observeStart)
  from f2 f3 have "runFrame e w (snd ?lw3)" by (rule runFrame_trans)
  from this f4 show ?thesis unfolding b by (rule runFrame_trans)
qed

lemma runFrame_runBody: "runFrame e w (snd (runBody h e a filename w))"
proof -
  let ?lw = "runStart h e a filename w"
  let ?lv = "validateAwait h e a (useAsync h w e) (type (entries w e) = TYPE_ESM) ?lw"
  have "runFrame e (snd ?lv) (snd (readResult h e ?lv))" by (rule runFrame_readResult)
  then have "runFrame e (snd ?lw) (snd (readResult h e ?lv))" by (simp add: snd_validateAwait)
  from runFrame_trans [OF runFrame_runStart this] show ?thesis by (simp add: runBody_def)
qed

lemma runFrame_assign_loaded: "runFrame e w (assign_loaded e v w)"
  by (simp add: assign_loaded_def runFrame_def store_defs entryCore_def
      split: loaded_property.splits)

lemma runFrame_completeRun: "runFrame e w (snd (completeRun e parsing0 firstPass isESM res w))"
  by (simp add: completeRun_def assign_loaded_def Let_def runFrame_def store_defs entryCore_def
      split: loaded_property.splits)

lemma runFrame_failRun: "runFrame e w (snd (failRun h e filename isESM error w))"
  by (simp add: failRun_def Let_def runFrame_def store_defs entryCore_def packageCore_def)

lemma runFrame_noCompileData: "runFrame e w (snd (tryRun_noCompileData e w))"
  by (simp add: tryRun_noCompileData_def Let_def runFrame_def store_defs entryCore_def
      split: option.splits)

lemma runFrame_tryRun: "runFrame e w (snd (tryRun h w e filename))"
proof (cases "compileData (entries w e)")
  case None
  then show ?thesis by (simp add: tryRun_def runFrame_noCompileData)
next
  case (Some a)
  obtain l w' where b: "runBody h e a filename w = (l, w')"
    by (cases "runBody h e a filename w")
  from runFrame_runBody [of e w h a filename] b have f: "runFrame e w w'" by simp
  show ?thesis
  proof (cases "thrown l")
    case None
    with Some b show ?thesis
      by (simp add: tryRun_def runFrame_trans [OF f runFrame_completeRun])
  next
    case (Some error)
    with \<open>compileData (entries w e) = Some a\<close> b show ?thesis
      by (simp add: tryRun_def runFrame_trans [OF f runFrame_failRun])
  qed
qed

lemma entryCore_fields:
  "entryCore en' = entryCore en \<Longrightarrow>
     type en' = type en \<and> compileData en' = compileData en \<and> package en' = package en \<and>
     extname en' = extname en \<and> cacheName en' = cacheName en \<and> getters en' = getters en \<and>
     children en' = children en \<and> circular en' = circular en \<and>
     module_exports en' = module_exports en \<and> module_parent en' = module_parent en \<and>
     namespaceFinalized en' = namespaceFinalized en \<and> mtime en' = mtime en \<and>
     runtimeName en' = runtimeName en"
  by (cases en, cases en') (simp add: entryCore_def)

lemma packageCore_fields:
  "packageCore p' = packageCore p \<Longrightarrow>
     opt_debug p' = opt_debug p \<and> opt_mode p' = opt_mode p \<and> opt_await p' = opt_await p \<and>
     cache_compile p' = cache_compile p \<and> opt_sourceMap p' = opt_sourceMap p \<and>
     opt_cjs_vars p' = opt_cjs_vars p \<and> cachePath p' = cachePath p \<and>
     opt_cjs_topLevelReturn p' = opt_cjs_topLevelReturn p"
  by (cases p, cases p') (simp add: packageCore_def)

lemma runFrame_world:
  "runFrame e w w' \<Longrightarrow>
     parsing w' = parsing w \<and> compileDatas w' = compileDatas w \<and>
     compileDataCount w' = compileDataCount w \<and> entryCount w' = entryCount w \<and>
     defaultPkg w' = defaultPkg w \<and> objects w \<le> objects w'"
  by (simp add: runFrame_def)

lemma runFrame_entry:
  "runFrame e w w' \<Longrightarrow>
     type (entries w' e) = type (entries w e) \<and>
     compileData (entries w' e) = compileData (entries w e) \<and>
     package (entries w' e) = package (entries w e) \<and>
     getters (entries w' e) = getters (entries w e) \<and>
     extname (entries w' e) = extname (entries w e) \<and>
     circular (entries w' e) = circular (entries w e) \<and>
     module_exports (entries w' e) = module_exports (entries w e) \<and>
     module_parent (entries w' e) = module_parent (entries w e) \<and>
     namespaceFinalized (entries w' e) = namespaceFinalized (entries w e)"
  using entryCore_fields [of "entries w' e" "entries w e"] by (simp add: runFrame_def)

lemma runFrame_others: "runFrame e w w' \<Longrightarrow> e' \<noteq> e \<Longrightarrow> entries w' e' = entries w e'"
  by (simp add: runFrame_def)

lemma runFrame_package:
  "runFrame e w w' \<Longrightarrow>
     opt_debug (packages w' p) = opt_debug (packages w p) \<and>
     cache_compile (packages w' p) = cache_compile (packages w p) \<and>
     opt_await (packages w' p) = opt_await (packages w p)"
  using packageCore_fields [of "packages w' p" "packages w p"] by (simp add: runFrame_def)

lemma runFrame_count:
  "runFrame e w w' \<Longrightarrow> \<not> driverEvent ev \<Longrightarrow> count_list (trace w') ev = count_list (trace w) ev"
proof -
  assume a: "runFrame e w w'" and n: "\<not> driverEvent ev"
  from a obtain evs where t: "trace w' = trace w @ evs" and d: "list_all driverEvent evs"
    unfolding runFrame_def by blast
  from d n have "count_list evs ev = 0"
    by (induction evs) auto
  with t show ?thesis by simp
qed

lemma packages_obtainRuntime: "packages (obtainRuntime e a w) = packages w"
  by (simp add: obtainRuntime_def store_defs split: option.splits)

lemma packages_next: "packages (snd (runResult_next h e w)) = packages w"
  by (simp add: runResult_next_def store_defs
      split: option.splits generator.splits generator_state.splits)

lemma packages_firstPassRun: "packages (snd (firstPassRun h e a filename async cjsVars w)) = packages w"
  by (simp add: firstPassRun_def Let_def store_defs split: sum.splits)

lemma packages_observeStart:
  "packages (snd (observeStart h e parsing0 firstPass lw)) = packages (snd lw)"
  using packages_next [of h e "setRunning e True (snd lw)"]
  by (cases lw) (auto simp add: observeStart_def store_defs split: prod.splits sum.splits)

lemma packages_readResult: "packages (snd (readResult h e lw)) = packages (snd lw)"
  using packages_next [of h e "setRunning e True (snd lw)"]
  by (cases lw) (auto simp add: readResult_def store_defs split: prod.splits sum.splits)

lemma packages_runStart: "packages (snd (runStart h e a filename w)) = packages w"
proof -
  let ?w2 = "setState e (if parsing w then STATE_PARSING_STARTED else STATE_EXECUTION_STARTED)
               (obtainRuntime e a w)"
  have p2: "packages ?w2 = packages w"
    using packages_obtainRuntime [of e a w] by (simp add: store_defs)
  show ?thesis
    unfolding runStart_def Let_def
    by (simp add: packages_observeStart packages_firstPassRun p2)
qed

lemma packages_runBody: "packages (snd (runBody h e a filename w)) = packages w"
  by (simp add: runBody_def packages_readResult snd_validateAwait packages_runStart)

subsection \<open>Errors of a run\<close>

lemma exportsHere_iff:
  "exportsHere s \<longleftrightarrow>
     (\<exists>post. s = codeUnits ''exports'' @ post \<and> (post = [] \<or> \<not> isWordChar (hd post)))"
proof
  assume h: "exportsHere s"
  then have "s = codeUnits ''exports'' @ drop 7 s"
    by (metis append_take_drop_id exportsHere_def)
  moreover from h have "drop 7 s = [] \<or> \<not> isWordChar (hd (drop 7 s))"
    by (auto simp add: exportsHere_def split: list.splits)
  ultimately show "\<exists>post. s = codeUnits ''exports'' @ post \<and> (post = [] \<or> \<not> isWordChar (hd post))"
    by blast
next
  assume "\<exists>post. s = codeUnits ''exports'' @ post \<and> (post = [] \<or> \<not> isWordChar (hd post))"
  then obtain post where s: "s = codeUnits ''exports'' @ post"
    and p: "post = [] \<or> \<not> isWordChar (hd post)" by blast
  have l: "length (codeUnits ''exports'') = 7" by (simp add: codeUnits_def)
  from s l have "take 7 s = codeUnits ''exports''" "drop 7 s = post" by simp_all
  with p show "exportsHere s"
    by (auto simp add: exportsHere_def split: list.splits)
qed

lemma exportsScan_iff:
  "exportsScan prevWord s \<longleftrightarrow>
     (\<exists>pre post. s = pre @ codeUnits ''exports'' @ post \<and>
        (\<forall>c \<in> set pre. \<not> isLineTerminator c) \<and>
        (if pre = [] then \<not> prevWord else \<not> isWordChar (last pre)) \<and>
        (post = [] \<or> \<not> isWordChar (hd post)))"
proof (induction s arbitrary: prevWord)
  case Nil
  show ?case by (simp add: codeUnits_def)
next
  case (Cons c cs)
  let ?W = "codeUnits ''exports''"
  let ?R = "\<lambda>pw s. \<exists>pre post. s = pre @ ?W @ post \<and>
        (\<forall>c \<in> set pre. \<not> isLineTerminator c) \<and>
        (if pre = [] then \<not> pw else \<not> isWordChar (last pre)) \<and>
        (post = [] \<or> \<not> isWordChar (hd post))"
  have split: "?R prevWord (c # cs) \<longleftrightarrow>
      (\<not> prevWord \<and> exportsHere (c # cs)) \<or> (\<not> isLineTerminator c \<and> ?R (isWordChar c) cs)"
  proof
    assume "?R prevWord (c # cs)"
    then obtain pre post where s: "c # cs = pre @ ?W @ post"
      and lt: "\<forall>c \<in> set pre. \<not> isLineTerminator c"
      and b: "if pre = [] then \<not> prevWord else \<not> isWordChar (last pre)"
      and p: "post = [] \<or> \<not> isWordChar (hd post)" by blast
    show "(\<not> prevWord \<and> exportsHere (c # cs)) \<or> (\<not> isLineTerminator c \<and> ?R (isWordChar c) cs)"
    proof (cases pre)
      case Nil
      with s p b have "\<not> prevWord \<and> exportsHere (c # cs)"
        unfolding exportsHere_iff by auto
      then show ?thesis ..
    next
      case (Cons c' pre')
      with s have c: "c' = c" and cs: "cs = pre' @ ?W @ post" by simp_all
      from lt Cons c have l1: "\<not> isLineTerminator c" and l2: "\<forall>c \<in> set pre'. \<not> isLineTerminator c"
        by simp_all
      from b Cons c have b': "if pre' = [] then \<not> isWordChar c else \<not> isWordChar (last pre')"
        by (simp split: if_splits)
      from cs l2 b' p have "?R (isWordChar c) cs" by blast
      with l1 show ?thesis by blast
    qed
  next
    assume "(\<not> prevWord \<and> exportsHere (c # cs)) \<or> (\<not> isLineTerminator c \<and> ?R (isWordChar c) cs)"
    then show "?R prevWord (c # cs)"
    proof
      assume a: "\<not> prevWord \<and> exportsHere (c # cs)"
      then obtain post where "c # cs = ?W @ post" "post = [] \<or> \<not> isWordChar (hd post)"
        unfolding exportsHere_iff by blast
      with a have "c # cs = [] @ ?W @ post \<and> (\<forall>c \<in> set []. \<not> isLineTerminator c) \<and>
          (if [] = ([] :: js_string) then \<not> prevWord else \<not> isWordChar (last [])) \<and>
          (post = [] \<or> \<not> isWordChar (hd post))" by simp
      then show ?thesis by blast
    next
      assume a: "\<not> isLineTerminator c \<and> ?R (isWordChar c) cs"
      then obtain pre post where cs: "cs = pre @ ?W @ post"
        and lt: "\<forall>c \<in> set pre. \<not> isLineTerminator c"
        and b: "if pre = [] then \<not> isWordChar c else \<not> isWordChar (last pre)"
        and p: "post = [] \<or> \<not> isWordChar (hd post)" by blast
      from cs a lt b p have "c # cs = (c # pre) @ ?W @ post \<and>
          (\<forall>c \<in> set (c # pre). \<not> isLineTerminator c) \<and>
          (if c # pre = [] then \<not> prevWord else \<not> isWordChar (last (c # pre))) \<and>
          (post = [] \<or> \<not> isWordChar (hd post))" by simp
      then show ?thesis by blast
    qed
  qed
  have "exportsScan prevWord (c # cs) \<longleftrightarrow>
      (\<not> prevWord \<and> exportsHere (c # cs)) \<or> (\<not> isLineTerminator c \<and> exportsScan (isWordChar c) cs)"
    by simp
  also have "\<dots> \<longleftrightarrow> (\<not> prevWord \<and> exportsHere (c # cs)) \<or> (\<not> isLineTerminator c \<and> ?R (isWordChar c) cs)"
    using Cons.IH [of "isWordChar c"] by simp
  also have "\<dots> \<longleftrightarrow> ?R prevWord (c # cs)" using split by simp
  finally show ?case .
qed

text \<open>
  What \<^verbatim>\<open>exportsRegExp.test(message)\<close> decides: the message has the word \<^verbatim>\<open>exports\<close>,
  with no letter, digit or underscore next to it, before its first line terminator.
\<close>

lemma exportsRegExp_test_iff:
  "exportsRegExp_test message \<longleftrightarrow>
     (\<exists>pre post. message = pre @ codeUnits ''exports'' @ post \<and>
        (\<forall>c \<in> set pre. c \<notin> {0x0A, 0x0D, 0x2028, 0x2029}) \<and>
        (pre = [] \<or> \<not> isWordChar (last pre)) \<and>
        (post = [] \<or> \<not> isWordChar (hd post)))"
proof -
  have "(if pre = [] then \<not> False else \<not> isWordChar (last pre)) \<longleftrightarrow>
        (pre = [] \<or> \<not> isWordChar (last pre))" for pre :: js_string
    by simp
  moreover have "\<not> isLineTerminator c \<longleftrightarrow> c \<notin> {0x0A, 0x0D, 0x2028, 0x2029}" for c
    by (simp add: isLineTerminator_def)
  ultimately show ?thesis
    unfolding exportsRegExp_test_def exportsScan_iff by simp
qed

text \<open>
  C9, as the code has it. Let the run of \<^verbatim>\<open>tryRun\<close> have thrown \<open>error\<close> (the body of the
  module, a \<^verbatim>\<open>next()\<close> or the \<^verbatim>\<open>await\<close> check). Then \<^verbatim>\<open>tryRun\<close> throws: no error is
  swallowed. The compile cache of the entry's package is dirty afterwards exactly when it
  was dirty before or the error is maskable, debug mode is off, the entry is an ESM entry
  and the error is a SyntaxError, or a ReferenceError whose message matches
  \<^verbatim>\<open>/^.*?\bexports\b/\<close>: the message is some \<open>pre\<close>, then \<^verbatim>\<open>exports\<close>, then some \<open>post\<close>,
  where \<open>pre\<close> holds no line terminator (line feed, carriage return, U+2028, U+2029) and
  does not end in a word character, and \<open>post\<close> does not start with one. In debug mode, or
  when the error is not maskable, the error itself is rethrown and no package is touched.
\<close>

theorem tryRun_rethrows_and_marks_dirty:
  assumes cd: "compileData (entries w e) = Some a"
    and body: "runBody h e a filename w = (l, wb)"
    and thrown: "thrown l = Some error"
  shows "(\<exists>error'. fst (tryRun h w e filename) = Inl error') \<and>
         (cache_dirty (packages (snd (tryRun h w e filename)) (package (entries w e))) \<longleftrightarrow>
            cache_dirty (packages w (package (entries w e))) \<or>
            (\<not> opt_debug (packages w (defaultPkg w)) \<and> isStackTraceMaskable h error \<and>
             type (entries w e) = TYPE_ESM \<and>
             (err_name error = ''SyntaxError'' \<or>
              (err_name error = ''ReferenceError'' \<and>
               (\<exists>pre post. err_message error = pre @ codeUnits ''exports'' @ post \<and>
                  (\<forall>c \<in> set pre. c \<notin> {0x0A, 0x0D, 0x2028, 0x2029}) \<and>
                  (pre = [] \<or> \<not> isWordChar (last pre)) \<and>
                  (post = [] \<or> \<not> isWordChar (hd post))))))) \<and>
         (opt_debug (packages w (defaultPkg w)) \<or> \<not> isStackTraceMaskable h error \<longrightarrow>
            fst (tryRun h w e filename) = Inl error \<and>
            packages (snd (tryRun h w e filename)) = packages w)"
proof -
  from runFrame_runBody [of e w h a filename] body have f: "runFrame e w wb" by simp
  from packages_runBody [of h e a filename w] body have p: "packages wb = packages w" by simp
  from runFrame_world [OF f] have d: "defaultPkg wb = defaultPkg w" by simp
  from runFrame_entry [OF f] have k: "package (entries wb e) = package (entries w e)" by simp
  have t: "tryRun h w e filename = failRun h e filename (type (entries w e) = TYPE_ESM) error wb"
    using cd body thrown by (simp add: tryRun_def)
  have "(\<exists>error'. fst (tryRun h w e filename) = Inl error') \<and>
         (cache_dirty (packages (snd (tryRun h w e filename)) (package (entries w e))) \<longleftrightarrow>
            cache_dirty (packages w (package (entries w e))) \<or>
            (\<not> opt_debug (packages w (defaultPkg w)) \<and> isStackTraceMaskable h error \<and>
             type (entries w e) = TYPE_ESM \<and>
             (err_name error = ''SyntaxError'' \<or>
              (err_name error = ''ReferenceError'' \<and> exportsRegExp_test (err_message error))))) \<and>
         (opt_debug (packages w (defaultPkg w)) \<or> \<not> isStackTraceMaskable h error \<longrightarrow>
            fst (tryRun h w e filename) = Inl error \<and>
            packages (snd (tryRun h w e filename)) = packages w)"
    unfolding t by (auto simp add: failRun_def Let_def store_defs p d k)
  then show ?thesis unfolding exportsRegExp_test_iff .
qed

text \<open>
  The run of an ESM module whose body throws, and the test of some messages.
\<close>

lemma throwsHost_run:
  "thrown (fst (runBody (throwsHost error) 0 0 ''/app/a.js'' demoWorld)) = Some error"
  "fst (tryRun (throwsHost error) demoWorld 0 ''/app/a.js'') = Inl error"
  by (simp_all add: driver_defs store_defs demo_defs Let_def)

lemma exportsRegExp_examples:
  "exportsRegExp_test (codeUnits ''exports is not defined'')"
  "exportsRegExp_test (codeUnits ''Cannot set module.exports here'')"
  "\<not> exportsRegExp_test (codeUnits ''x is not defined'' @ [0x0A] @ codeUnits ''exports is not defined'')"
  "\<not> exportsRegExp_test ([0x2028] @ codeUnits ''exports is not defined'')"
  "\<not> exportsRegExp_test (codeUnits ''myexports is not defined'')"
  "\<not> exportsRegExp_test (codeUnits ''exports_ is not defined'')"
  by (simp_all add: exportsRegExp_test_def exportsHere_def isWordChar_def isLineTerminator_def
      codeUnits_def)

text \<open>
  ESM modules whose bodies throw. The cache is marked dirty for a ReferenceError with
  \<^verbatim>\<open>exports\<close> on the first line of its message and for a SyntaxError. It stays clean when
  the word comes after a line feed or after U+2028, when it is part of a longer word, and
  for a TypeError. Every error is rethrown.
\<close>

theorem tryRun_rethrows_and_marks_dirty_witness:
  "\<not> cache_dirty (packages demoWorld 0) \<and>
   cache_dirty (packages (snd (tryRun (throwsHost exportsError) demoWorld 0 ''/app/a.js'')) 0) \<and>
   fst (tryRun (throwsHost exportsError) demoWorld 0 ''/app/a.js'') = Inl exportsError \<and>
   \<not> cache_dirty (packages (snd (tryRun (throwsHost secondLineError) demoWorld 0 ''/app/a.js'')) 0) \<and>
   \<not> cache_dirty (packages (snd (tryRun
       (throwsHost (exportsError\<lparr>err_message := [0x2028] @ codeUnits ''exports is not defined''\<rparr>))
       demoWorld 0 ''/app/a.js'')) 0) \<and>
   \<not> cache_dirty (packages (snd (tryRun
       (throwsHost (exportsError\<lparr>err_message := codeUnits ''myexports is not defined''\<rparr>))
       demoWorld 0 ''/app/a.js'')) 0) \<and>
   \<not> cache_dirty (packages (snd (tryRun
       (throwsHost (exportsError\<lparr>err_name := ''TypeError''\<rparr>)) demoWorld 0 ''/app/a.js'')) 0) \<and>
   cache_dirty (packages (snd (tryRun
       (throwsHost (exportsError\<lparr>err_name := ''SyntaxError'', err_message := []\<rparr>))
       demoWorld 0 ''/app/a.js'')) 0)"
proof -
  have c: "compileData (entries demoWorld 0) = Some 0"
    by (simp add: demo_defs)
  have v: "package (entries demoWorld 0) = 0" "\<not> cache_dirty (packages demoWorld 0)"
    "\<not> opt_debug (packages demoWorld (defaultPkg demoWorld))"
    "isStackTraceMaskable (throwsHost error) error" "type (entries demoWorld 0) = TYPE_ESM"
    for error
    by (simp_all add: demo_defs)
  have n: "err_name exportsError = ''ReferenceError''"
    "err_message exportsError = codeUnits ''exports is not defined''"
    "err_name secondLineError = ''ReferenceError''"
    "err_message secondLineError =
       codeUnits ''x is not defined'' @ [0x0A] @ codeUnits ''exports is not defined''"
    by (simp_all add: exportsError_def secondLineError_def)
  note i = tryRun_rethrows_and_marks_dirty [OF c prod.collapse [symmetric] throwsHost_run(1),
      folded exportsRegExp_test_iff]
  from i [of exportsError] i [of secondLineError]
    i [of "exportsError\<lparr>err_message := [0x2028] @ codeUnits ''exports is not defined''\<rparr>"]
    i [of "exportsError\<lparr>err_message := codeUnits ''myexports is not defined''\<rparr>"]
    i [of "exportsError\<lparr>err_name := ''TypeError''\<rparr>"]
    i [of "exportsError\<lparr>err_name := ''SyntaxError'', err_message := []\<rparr>"]
    throwsHost_run(2) [of exportsError]
  show ?thesis
    by (simp add: v n exportsRegExp_test_def exportsHere_def isWordChar_def isLineTerminator_def
        codeUnits_def)
qed

text \<open>
  C9 as stated does not hold. The message of this ReferenceError holds the identifier
  \<^verbatim>\<open>exports\<close>, but on its second line: thrown by the body of an ESM module, outside debug
  mode and maskable, it is rethrown and leaves the cache clean.
\<close>

theorem tryRun_keeps_cache_clean_for_exports_on_second_line:
  "err_name secondLineError = ''ReferenceError'' \<and>
   err_message secondLineError =
     codeUnits ''x is not defined'' @ [0x0A] @ codeUnits ''exports'' @ codeUnits '' is not defined'' \<and>
   type (entries demoWorld 0) = TYPE_ESM \<and>
   \<not> opt_debug (packages demoWorld (defaultPkg demoWorld)) \<and>
   isStackTraceMaskable (throwsHost secondLineError) secondLineError \<and>
   thrown (fst (runBody (throwsHost secondLineError) 0 0 ''/app/a.js'' demoWorld)) =
     Some secondLineError \<and>
   fst (tryRun (throwsHost secondLineError) demoWorld 0 ''/app/a.js'') = Inl secondLineError \<and>
   \<not> cache_dirty (packages (snd (tryRun (throwsHost secondLineError) demoWorld 0 ''/app/a.js''))
       (package (entries demoWorld 0)))"
  by (simp add: driver_defs store_defs demo_defs Let_def)

subsection \<open>The state at the end of a run\<close>

lemma state_completeRun:
  "state (entries (snd (completeRun e parsing0 firstPass isESM res w)) e) =
     (if parsing0 then STATE_PARSING_COMPLETED else STATE_EXECUTION_COMPLETED)"
  by (simp add: completeRun_def assign_loaded_def Let_def store_defs split: loaded_property.splits)

lemma fst_completeRun: "fst (completeRun e parsing0 firstPass isESM res w) = Inr res"
  by (simp add: completeRun_def Let_def)

lemma state_failRun:
  "state (entries (snd (failRun h e filename isESM error w)) e) = STATE_EXECUTION_COMPLETED"
  by (simp add: failRun_def Let_def store_defs)

lemma fst_failRun: "\<exists>error'. fst (failRun h e filename isESM error w) = Inl error'"
  by (simp add: failRun_def Let_def)

subsection \<open>The top-level \<^verbatim>\<open>await\<close> check\<close>

text \<open>
  C1, as the code has it. Let \<^verbatim>\<open>tryRun\<close> have come to its check of a top-level
  \<^verbatim>\<open>await\<close> with the locals \<open>l\<close> in the state \<open>ws\<close>. The check raises the error of
  \<open>ILLEGAL_AWAIT_IN_NON_ASYNC_FUNCTION\<close>, a SyntaxError with exactly the recorded line and
  column and with \<^verbatim>\<open>inModule\<close> set, if and only if nothing was thrown so far, the entry is
  not running, \<^verbatim>\<open>useAsync(entry)\<close> holds, the entry is an ESM entry,
  \<^verbatim>\<open>compileData.firstAwaitOutsideFunction\<close> is not \<^verbatim>\<open>null\<close>, and \<^verbatim>\<open>entry.getters\<close> is
  \<^emph>\<open>not\<close> empty; where one of these fails, what has been thrown so far stays as it is.
  When the error is raised, \<^verbatim>\<open>tryRun\<close> throws it: as it is in debug mode or when it is
  not maskable, with a masked trace otherwise.
\<close>

theorem tryRun_illegal_await:
  assumes cd: "compileData (entries w e) = Some a"
    and start: "runStart h e a filename w = (l, ws)"
  shows "thrown (fst (validateAwait h e a (useAsync h w e) (type (entries w e) = TYPE_ESM) (l, ws))) =
           (case cd_firstAwaitOutsideFunction (compileDatas w a) of
              None \<Rightarrow> thrown l
            | Some loc \<Rightarrow>
                if thrown l = None \<and> \<not> running (entries ws e) \<and> useAsync h w e \<and>
                   type (entries w e) = TYPE_ESM \<and> getters (entries w e) \<noteq> []
                then Some \<lparr>err_name = ''SyntaxError'',
                           err_message = ILLEGAL_AWAIT_IN_NON_ASYNC_FUNCTION h,
                           err_line = Some (loc_line loc), err_column = Some (loc_column loc),
                           err_inModule = True, err_stack = []\<rparr>
                else thrown l) \<and>
         (thrown l = None \<and> \<not> running (entries ws e) \<and> useAsync h w e \<and>
          type (entries w e) = TYPE_ESM \<and> getters (entries w e) \<noteq> [] \<and>
          cd_firstAwaitOutsideFunction (compileDatas w a) = Some loc \<longrightarrow>
            fst (tryRun h w e filename) =
              Inl (if opt_debug (packages w (defaultPkg w)) \<or>
                      \<not> isStackTraceMaskable h (awaitError h loc)
                   then awaitError h loc
                   else maskStackTrace h (awaitError h loc)
                          \<lparr>m_content = None,
                           m_filename = (case getLocationFromStackTrace h (awaitError h loc) of
                                           Some f \<Rightarrow> f | None \<Rightarrow> filename),
                           m_inModule = Some True\<rparr>))"
proof -
  from runFrame_runStart [of e w h a filename] start have f: "runFrame e w ws" by simp
  from runFrame_world [OF f] have c: "compileDatas ws = compileDatas w"
    and d: "defaultPkg ws = defaultPkg w" by simp_all
  from runFrame_entry [OF f] have g: "getters (entries ws e) = getters (entries w e)" by simp
  from packages_runStart [of h e a filename w] start have p: "packages ws = packages w" by simp
  have v: "thrown (fst (validateAwait h e a (useAsync h w e) (type (entries w e) = TYPE_ESM) (l, ws))) =
           (case cd_firstAwaitOutsideFunction (compileDatas w a) of
              None \<Rightarrow> thrown l
            | Some loc \<Rightarrow>
                if thrown l = None \<and> \<not> running (entries ws e) \<and> useAsync h w e \<and>
                   type (entries w e) = TYPE_ESM \<and> getters (entries w e) \<noteq> []
                then Some \<lparr>err_name = ''SyntaxError'',
                           err_message = ILLEGAL_AWAIT_IN_NON_ASYNC_FUNCTION h,
                           err_line = Some (loc_line loc), err_column = Some (loc_column loc),
                           err_inModule = True, err_stack = []\<rparr>
                else thrown l)"
    by (auto simp add: validateAwait_def c g isObjectEmpty_def awaitError_def split: option.splits)
  have t: "fst (tryRun h w e filename) =
              Inl (if opt_debug (packages w (defaultPkg w)) \<or>
                      \<not> isStackTraceMaskable h (awaitError h loc)
                   then awaitError h loc
                   else maskStackTrace h (awaitError h loc)
                          \<lparr>m_content = None,
                           m_filename = (case getLocationFromStackTrace h (awaitError h loc) of
                                           Some f \<Rightarrow> f | None \<Rightarrow> filename),
                           m_inModule = Some True\<rparr>)"
    if "thrown l = None" "\<not> running (entries ws e)" "useAsync h w e"
      "type (entries w e) = TYPE_ESM" "getters (entries w e) \<noteq> []"
      "cd_firstAwaitOutsideFunction (compileDatas w a) = Some loc"
  proof -
    have va: "validateAwait h e a (useAsync h w e) (type (entries w e) = TYPE_ESM) (l, ws) =
        (l\<lparr>thrown := Some (awaitError h loc)\<rparr>, ws)"
      using that by (auto simp add: validateAwait_def c g isObjectEmpty_def)
    have b: "runBody h e a filename w = (l\<lparr>thrown := Some (awaitError h loc)\<rparr>, ws)"
      by (simp add: runBody_def start va readResult_def)
    show ?thesis
      using cd that(4) by (simp add: tryRun_def b failRun_def Let_def store_defs p d)
  qed
  from v t show ?thesis by blast
qed

text \<open>
  A module with exports and a top-level \<^verbatim>\<open>await\<close> at line 3, column 0.
\<close>

theorem tryRun_illegal_await_witness:
  "fst (tryRun demoHost awaitExportWorld 0 ''/app/a.js'') =
     Inl (awaitError demoHost \<lparr>loc_line = 3, loc_column = 0\<rparr>) \<and>
   err_line (awaitError demoHost \<lparr>loc_line = 3, loc_column = 0\<rparr>) = Some 3 \<and>
   err_column (awaitError demoHost \<lparr>loc_line = 3, loc_column = 0\<rparr>) = Some 0 \<and>
   err_inModule (awaitError demoHost \<lparr>loc_line = 3, loc_column = 0\<rparr>)"
  using tryRun_illegal_await [of awaitExportWorld 0 0 demoHost "''/app/a.js''"
      "fst (runStart demoHost 0 0 ''/app/a.js'' awaitExportWorld)"
      "snd (runStart demoHost 0 0 ''/app/a.js'' awaitExportWorld)"
      "\<lparr>loc_line = 3, loc_column = 0\<rparr>"]
  by (simp add: driver_defs store_defs demo_defs Let_def)

text \<open>
  C1 as stated does not hold. With no getters, and every other condition met, \<^verbatim>\<open>tryRun\<close>
  returns and no error is raised.
\<close>

theorem tryRun_no_await_error_without_getters:
  "isObjectEmpty (getters (entries awaitWorld 0)) \<and>
   type (entries awaitWorld 0) = TYPE_ESM \<and>
   useAsync demoHost awaitWorld 0 \<and>
   \<not> running (entries awaitWorld 0) \<and>
   cd_firstAwaitOutsideFunction (compileDatas awaitWorld 0) = Some \<lparr>loc_line = 3, loc_column = 0\<rparr> \<and>
   fst (tryRun demoHost awaitWorld 0 ''/app/a.js'') = Inr Undefined"
  by (simp add: driver_defs store_defs demo_defs Let_def)

subsection \<open>The \<^verbatim>\<open>loaded\<close> property\<close>

lemma assign_all_data:
  "module_loaded (entries w e) = LoadedData x \<Longrightarrow>
     trace (assign_all e vs w) = trace w \<and> read_loaded (assign_all e vs w) e = last (x # vs)"
proof (induction vs arbitrary: w x)
  case Nil
  then show ?case by (simp add: assign_all_def read_loaded_def)
next
  case (Cons v vs)
  have m: "module_loaded (entries (assign_loaded e v w) e) = LoadedData v"
    and t: "trace (assign_loaded e v w) = trace w"
    using Cons.prems by (simp_all add: assign_loaded_def store_defs)
  from Cons.IH [OF m] t show ?case by (simp add: assign_all_def)
qed

lemma assign_all_accessor:
  "module_loaded (entries w e) = LoadedAccessor \<Longrightarrow>
     read_loaded (assign_all e vs w) e =
       (case dropWhile (\<lambda>v. \<not> truthy v) vs of [] \<Rightarrow> Boolean False | v # rest \<Rightarrow> last (v # rest)) \<and>
     count_list (trace (assign_all e vs w)) (EvUpdateBindings e) =
       count_list (trace w) (EvUpdateBindings e) + (if list_ex truthy vs then 1 else 0) \<and>
     count_list (trace (assign_all e vs w)) (EvLoaded e) =
       count_list (trace w) (EvLoaded e) + (if list_ex truthy vs then 1 else 0)"
proof (induction vs arbitrary: w)
  case Nil
  then show ?case by (simp add: assign_all_def read_loaded_def)
next
  case (Cons v vs)
  show ?case
  proof (cases "truthy v")
    case False
    with Cons.prems have "assign_loaded e v w = w" by (simp add: assign_loaded_def)
    with Cons.IH [OF Cons.prems] False show ?thesis by (simp add: assign_all_def)
  next
    case True
    let ?w1 = "assign_loaded e v w"
    have m: "module_loaded (entries ?w1 e) = LoadedData v"
      and t: "trace ?w1 = trace w @ [EvUpdateBindings e, EvLoaded e]"
      using Cons.prems True by (simp_all add: assign_loaded_def store_defs)
    have a: "assign_all e (v # vs) w = assign_all e vs ?w1" by (simp add: assign_all_def)
    from assign_all_data [OF m, of vs] t True show ?thesis
      unfolding a by simp
  qed
qed

text \<open>
  C8. After a run of an ESM entry that returns, \<^verbatim>\<open>mod.loaded\<close> reads as \<^verbatim>\<open>false\<close>, and
  after any sequence \<open>vs\<close> of assignments to it: it still reads as \<^verbatim>\<open>false\<close> while no
  truthy value was assigned, and as the value assigned last from the first truthy value on;
  \<^verbatim>\<open>entry.updateBindings()\<close> and \<^verbatim>\<open>entry.loaded()\<close> have each been called once if some
  assigned value was truthy, and not at all otherwise.
\<close>

theorem loaded_is_one_shot:
  assumes cd: "compileData (entries w e) = Some a"
    and esm: "type (entries w e) = TYPE_ESM"
    and run: "tryRun h w e filename = (Inr res, w')"
  shows "read_loaded w' e = Boolean False \<and>
         read_loaded (assign_all e vs w') e =
           (case dropWhile (\<lambda>v. \<not> truthy v) vs of
              [] \<Rightarrow> Boolean False | v # rest \<Rightarrow> last (v # rest)) \<and>
         count_list (trace (assign_all e vs w')) (EvUpdateBindings e) =
           count_list (trace w') (EvUpdateBindings e) + (if list_ex truthy vs then 1 else 0) \<and>
         count_list (trace (assign_all e vs w')) (EvLoaded e) =
           count_list (trace w') (EvLoaded e) + (if list_ex truthy vs then 1 else 0)"
proof -
  obtain l wb where b: "runBody h e a filename w = (l, wb)"
    by (cases "runBody h e a filename w")
  have m: "module_loaded (entries w' e) = LoadedAccessor"
  proof (cases "thrown l")
    case None
    with cd b esm run show ?thesis
      by (auto simp add: tryRun_def completeRun_def Let_def store_defs)
  next
    case (Some error)
    with cd b run fst_failRun [of h e filename "type (entries w e) = TYPE_ESM" error wb]
    show ?thesis by (auto simp add: tryRun_def)
  qed
  from assign_all_accessor [OF m, of vs] assign_all_accessor [OF m, of "[]"]
  show ?thesis by (simp add: assign_all_def)
qed

text \<open>
  The run of the demonstration module returns, and fires neither hook.
\<close>

lemma demoWorld_run_returns:
  "fst (tryRun demoHost demoWorld 0 ''/app/a.js'') = Inr Undefined"
  "count_list (trace (snd (tryRun demoHost demoWorld 0 ''/app/a.js''))) (EvLoaded 0) = 0"
  "count_list (trace (snd (tryRun demoHost demoWorld 0 ''/app/a.js''))) (EvUpdateBindings 0) = 0"
  by (simp_all add: driver_defs store_defs demo_defs Let_def)

text \<open>
  Assignments of \<^verbatim>\<open>false\<close> and \<^verbatim>\<open>0\<close> change nothing; after \<^verbatim>\<open>true\<close> the hooks have
  fired once, and a later assignment is a plain write.
\<close>

theorem loaded_is_one_shot_witness:
  "fst (tryRun demoHost demoWorld 0 ''/app/a.js'') = Inr Undefined \<and>
   read_loaded (snd (tryRun demoHost demoWorld 0 ''/app/a.js'')) 0 = Boolean False \<and>
   read_loaded (assign_all 0 [Boolean False, Number 0]
     (snd (tryRun demoHost demoWorld 0 ''/app/a.js''))) 0 = Boolean False \<and>
   read_loaded (assign_all 0 [Boolean False, Boolean True, String ''again'']
     (snd (tryRun demoHost demoWorld 0 ''/app/a.js''))) 0 = String ''again'' \<and>
   count_list (trace (assign_all 0 [Boolean False, Boolean True, String ''again'']
     (snd (tryRun demoHost demoWorld 0 ''/app/a.js'')))) (EvLoaded 0) = 1 \<and>
   count_list (trace (assign_all 0 [Boolean False, Boolean True, String ''again'']
     (snd (tryRun demoHost demoWorld 0 ''/app/a.js'')))) (EvUpdateBindings 0) = 1"
proof -
  have c: "compileData (entries demoWorld 0) = Some 0" and t: "type (entries demoWorld 0) = TYPE_ESM"
    by (simp_all add: demo_defs)
  have r: "tryRun demoHost demoWorld 0 ''/app/a.js'' =
      (Inr Undefined, snd (tryRun demoHost demoWorld 0 ''/app/a.js''))"
    using demoWorld_run_returns(1) by (simp add: prod_eq_iff)
  from loaded_is_one_shot [OF c t r, of "[Boolean False, Number 0]"]
    loaded_is_one_shot [OF c t r, of "[Boolean False, Boolean True, String ''again'']"]
    demoWorld_run_returns
  show ?thesis by simp
qed

subsection \<open>What \<^verbatim>\<open>compile\<close> leaves unchanged after the CompileData is there\<close>

lemma driverEvent_postEvent: "driverEvent ev \<Longrightarrow> postEvent ev"
  by (cases ev) simp_all

lemma list_all_driver_post: "list_all driverEvent evs \<Longrightarrow> list_all postEvent evs"
  by (induction evs) (simp_all add: driverEvent_postEvent)

lemma declFrame_refl: "declFrame e w w"
  by (simp add: declFrame_def)

lemma declFrame_trans:
  assumes a: "declFrame e w w1" and b: "declFrame e w1 w2"
  shows "declFrame e w w2"
proof -
  from a obtain evs1 where e1: "trace w1 = trace w @ evs1" "list_all postEvent evs1"
    unfolding declFrame_def by blast
  from b obtain evs2 where e2: "trace w2 = trace w1 @ evs2" "list_all postEvent evs2"
    unfolding declFrame_def by blast
  have t: "trace w2 = trace w @ (evs1 @ evs2) \<and> list_all postEvent (evs1 @ evs2)"
    using e1 e2 by simp
  have r: "parsing w2 = parsing w \<and> compileDataCount w2 = compileDataCount w \<and>
     entryCount w2 = entryCount w \<and> defaultPkg w2 = defaultPkg w \<and> objects w \<le> objects w2 \<and>
     (\<forall>e'. e' \<noteq> e \<longrightarrow> entries w2 e' = entries w e') \<and>
     entryCore2 (entries w2 e) = entryCore2 (entries w e) \<and>
     (\<forall>p. packageCore (packages w2 p) = packageCore (packages w p)) \<and>
     (\<forall>a. cdCore (compileDatas w2 a) = cdCore (compileDatas w a))"
    using a b unfolding declFrame_def by simp
  from r t show ?thesis unfolding declFrame_def by blast
qed

lemma runFrame_declFrame:
  assumes a: "runFrame e w w'"
  shows "declFrame e w w'"
proof -
  from a obtain evs where e1: "trace w' = trace w @ evs" "list_all driverEvent evs"
    unfolding runFrame_def by blast
  from e1 list_all_driver_post [of evs]
  have t: "\<exists>evs. trace w' = trace w @ evs \<and> list_all postEvent evs" by blast
  have r: "parsing w' = parsing w \<and> compileDataCount w' = compileDataCount w \<and>
     entryCount w' = entryCount w \<and> defaultPkg w' = defaultPkg w \<and> objects w \<le> objects w' \<and>
     (\<forall>e'. e' \<noteq> e \<longrightarrow> entries w' e' = entries w e') \<and>
     entryCore2 (entries w' e) = entryCore2 (entries w e) \<and>
     (\<forall>p. packageCore (packages w' p) = packageCore (packages w p)) \<and>
     (\<forall>a. cdCore (compileDatas w' a) = cdCore (compileDatas w a))"
    using a unfolding runFrame_def by (simp add: entryCore2_def)
  from r t show ?thesis unfolding declFrame_def by blast
qed

lemma declFrame_tryRun: "declFrame e w (snd (tryRun h w e filename))"
  by (rule runFrame_declFrame [OF runFrame_tryRun])

lemma declFrame_log: "postEvent ev \<Longrightarrow> declFrame e w (log ev w)"
  by (simp add: declFrame_def store_defs)

lemma declFrame_updEntry:
  "entryCore2 (f (entries w e)) = entryCore2 (entries w e) \<Longrightarrow> declFrame e w (updEntry e f w)"
  by (simp add: declFrame_def store_defs)

lemma declFrame_updCompileData:
  "cdCore (f (compileDatas w a)) = cdCore (compileDatas w a) \<Longrightarrow>
     declFrame e w (updCompileData a f w)"
  by (simp add: declFrame_def store_defs)

lemma declFrame_parsing:
  "declFrame e w w' \<Longrightarrow> declFrame e (w\<lparr>parsing := b\<rparr>) (w'\<lparr>parsing := b\<rparr>)"
  by (simp add: declFrame_def)

lemma declFrame_rerunCircular: "declFrame e w (snd (rerunCircular h w e a filename))"
proof -
  let ?w1 = "updEntry e (\<lambda>en. en\<lparr>circular := True, runtime := None\<rparr>) w"
  let ?w2 = "snd (GenericObject_create ?w1)"
  let ?w3 = "updEntry e (\<lambda>en. en\<lparr>module_exports := fst (GenericObject_create ?w1)\<rparr>) ?w2"
  let ?w4 = "case cd_codeWithTDZ (compileDatas ?w3 a) of
               Some codeWithTDZ \<Rightarrow> updCompileData a (\<lambda>cd. cd\<lparr>cd_code := Some codeWithTDZ\<rparr>) ?w3
             | None \<Rightarrow> ?w3"
  have r: "rerunCircular h w e a filename = tryRun h ?w4 e filename"
    by (simp add: rerunCircular_def Let_def case_prod_beta)
  have f1: "declFrame e w ?w1"
    by (rule declFrame_updEntry) (simp add: entryCore2_def entryCore_def)
  have f2: "declFrame e ?w1 ?w2"
    by (simp add: declFrame_def GenericObject_create_def)
  have f3: "declFrame e ?w2 ?w3"
    by (rule declFrame_updEntry) (simp add: entryCore2_def entryCore_def)
  have f4: "declFrame e ?w3 ?w4"
    by (cases "cd_codeWithTDZ (compileDatas ?w3 a)")
      (simp_all add: declFrame_refl declFrame_updCompileData cdCore_def)
  from declFrame_trans [OF declFrame_trans [OF declFrame_trans [OF f1 f2] f3] f4]
  have "declFrame e w ?w4" .
  from declFrame_trans [OF this declFrame_tryRun] show ?thesis unfolding r .
qed

lemma declFrame_runDeclarative: "declFrame e w (snd (runDeclarative h w e a filename))"
proof -
  obtain r1 w1 where t: "tryRun h w e filename = (r1, w1)" by (cases "tryRun h w e filename")
  from declFrame_tryRun [of e w h filename] t have f1: "declFrame e w w1" by simp
  show ?thesis
  proof (cases r1)
    case (Inl error)
    with t f1 show ?thesis by (simp add: runDeclarative_def)
  next
    case (Inr res)
    let ?w2 = "if cd_circular (compileDatas w1 a) = - 1
               then updCompileData a
                      (\<lambda>cd. cd\<lparr>cd_circular := (if fst (isDescendant w1 e e None) then 1 else 0)\<rparr>) w1
               else w1"
    have f2: "declFrame e w1 ?w2"
      by (simp add: declFrame_refl declFrame_updCompileData cdCore_def)
    let ?rw3 = "if cd_circular (compileDatas ?w2 a) = 1 then rerunCircular h ?w2 e a filename
                else (Inr res, ?w2)"
    have f3: "declFrame e ?w2 (snd ?rw3)"
      by (simp add: declFrame_refl declFrame_rerunCircular)
    from declFrame_trans [OF declFrame_trans [OF f1 f2] f3] have f: "declFrame e w (snd ?rw3)" .
    obtain r3 w3 where rw: "?rw3 = (r3, w3)" by (cases ?rw3)
    with f have f': "declFrame e w w3" by simp
    have d: "runDeclarative h w e a filename =
        (case r3 of Inl error \<Rightarrow> (Inl error, w3)
         | Inr res' \<Rightarrow>
             (let w4 = Entry_updateBindings e w3;
                  w5 = (if namespaceFinalized (entries w4 e) \<noteq> NAMESPACE_FINALIZATION_DEFERRED h
                        then Entry_finalizeNamespace e w4 else w4)
              in (Inr res', w5)))"
      using t Inr rw by (simp add: runDeclarative_def Let_def split: sum.splits)
    show ?thesis
    proof (cases r3)
      case (Inl error)
      with d f' show ?thesis by simp
    next
      case (Inr res')
      let ?w4 = "Entry_updateBindings e w3"
      let ?w5 = "if namespaceFinalized (entries ?w4 e) \<noteq> NAMESPACE_FINALIZATION_DEFERRED h
          then Entry_finalizeNamespace e ?w4 else ?w4"
      have g1: "declFrame e w3 ?w4"
        unfolding Entry_updateBindings_def by (rule declFrame_log) simp
      have g2: "declFrame e ?w4 ?w5"
        by (simp add: declFrame_refl Entry_finalizeNamespace_def declFrame_log)
      from declFrame_trans [OF declFrame_trans [OF f' g1] g2] have "declFrame e w ?w5" .
      then show ?thesis
        using d Inr by (simp add: Let_def)
    qed
  qed
qed

lemma declFrame_compile:
  assumes res: "resolveCompileData h caller w e content filename = (Inr a, w1)"
  shows "declFrame e w1 (snd (compile h caller w e content filename fallback))"
proof -
  let ?isESM = "type (entries w1 e) = TYPE_ESM"
  let ?side = "\<not> parsing w1 \<and> ?isESM \<and> state (entries w1 e) = STATE_INITIAL"
  show ?thesis
  proof (cases "parsing w1")
    case True
    show ?thesis
    proof (cases ?isESM)
      case esm: True
      obtain r w3 where d: "runDeclarative h w1 e a filename = (r, w3)"
        by (cases "runDeclarative h w1 e a filename")
      from declFrame_runDeclarative [of e w1 h a filename] d have "declFrame e w1 w3" by simp
      then show ?thesis
        using res True esm d by (simp add: compile_def Let_def split: sum.splits)
    next
      case cjs: False
      have "declFrame e w1 (log EvFallback w1)" by (rule declFrame_log) simp
      then show ?thesis
        using res True cjs declFrame_tryRun [of e w1 h filename]
        by (simp add: compile_def Let_def split: option.splits)
    qed
  next
    case False
    show ?thesis
    proof (cases ?side)
      case notside: False
      with res False declFrame_tryRun [of e w1 h filename] show ?thesis
        by (simp add: compile_def Let_def)
    next
      case side: True
      let ?w2 = "(setState e STATE_PARSING_STARTED w1)\<lparr>parsing := True\<rparr>"
      obtain r w3 where d: "runDeclarative h ?w2 e a filename = (r, w3)"
        by (cases "runDeclarative h ?w2 e a filename")
      let ?w4 = "w3\<lparr>parsing := False\<rparr>"
      from declFrame_runDeclarative [of e ?w2 h a filename] d have "declFrame e ?w2 w3" by simp
      from declFrame_parsing [OF this, of False]
      have f23: "declFrame e (?w2\<lparr>parsing := False\<rparr>) ?w4" .
      have f12: "declFrame e w1 (?w2\<lparr>parsing := False\<rparr>)"
        using False by (simp add: declFrame_def store_defs entryCore2_def entryCore_def)
      from declFrame_trans [OF f12 f23] have f14: "declFrame e w1 ?w4" .
      from declFrame_trans [OF f14 declFrame_tryRun] have f15: "declFrame e w1 (snd (tryRun h ?w4 e filename))" .
      show ?thesis
        using res False side d f14 f15 by (simp add: compile_def Let_def split: sum.splits)
    qed
  qed
qed

lemma declFrame_world:
  "declFrame e w w' \<Longrightarrow>
     parsing w' = parsing w \<and> compileDataCount w' = compileDataCount w \<and>
     entryCount w' = entryCount w \<and> defaultPkg w' = defaultPkg w"
  by (simp add: declFrame_def)

lemma entryCore2_fields:
  "entryCore2 en' = entryCore2 en \<Longrightarrow>
     type en' = type en \<and> compileData en' = compileData en \<and> package en' = package en \<and>
     cacheName en' = cacheName en"
  by (cases en, cases en') (simp add: entryCore2_def entryCore_def)

lemma declFrame_entry:
  "declFrame e w w' \<Longrightarrow>
     type (entries w' e) = type (entries w e) \<and>
     compileData (entries w' e) = compileData (entries w e) \<and>
     package (entries w' e) = package (entries w e)"
  using entryCore2_fields [of "entries w' e" "entries w e"] by (simp add: declFrame_def)

lemma cdCore_fields:
  "cdCore cd' = cdCore cd \<Longrightarrow>
     cd_transforms cd' = cd_transforms cd \<and> cd_sourceType cd' = cd_sourceType cd \<and>
     cd_codeWithTDZ cd' = cd_codeWithTDZ cd"
  by (cases cd, cases cd') (simp add: cdCore_def)

lemma declFrame_transforms:
  "declFrame e w w' \<Longrightarrow> cd_transforms (compileDatas w' a) = cd_transforms (compileDatas w a)"
  using cdCore_fields [of "compileDatas w' a" "compileDatas w a"] by (simp add: declFrame_def)

lemma declFrame_count:
  assumes a: "declFrame e w w'"
  shows "count_list (trace w') (EvCachingCompile c) = count_list (trace w) (EvCachingCompile c)"
proof -
  from a obtain evs where t: "trace w' = trace w @ evs" and d: "list_all postEvent evs"
    unfolding declFrame_def by blast
  from d have "count_list evs (EvCachingCompile c) = 0"
    by (induction evs) auto
  with t show ?thesis by simp
qed

subsection \<open>The CompileData of an entry\<close>




lemma defaultCode_frame:
  "trace (defaultCode a content w) = trace w \<and> entries (defaultCode a content w) = entries w \<and>
   parsing (defaultCode a content w) = parsing w \<and>
   cd_transforms (compileDatas (defaultCode a content w) b) = cd_transforms (compileDatas w b)"
  by (simp add: defaultCode_def store_defs)

lemma compileFresh_frame:
  "parsing (snd (compileFresh h caller w e content filename sd)) = parsing w \<and>
   compilerCalls (snd (compileFresh h caller w e content filename sd)) = Suc (compilerCalls w) \<and>
   count_list (trace (snd (compileFresh h caller w e content filename sd))) EvFallback =
     count_list (trace w) EvFallback \<and>
   (\<forall>a. fst (compileFresh h caller w e content filename sd) = Inr a \<longrightarrow>
      compileData (entries (snd (compileFresh h caller w e content filename sd)) e) = Some a)"
  by (simp add: compileFresh_def tryCompile_def Let_def store_defs compilerCalls_def
      split: sum.splits)

lemma from_frame:
  "parsing (snd (CachingCompiler_from w e)) = parsing w \<and>
   trace (snd (CachingCompiler_from w e)) = trace w \<and>
   (\<forall>a. fst (CachingCompiler_from w e) = Some a \<longrightarrow>
      compileData (entries (snd (CachingCompiler_from w e)) e) = Some a)"
  by (simp add: CachingCompiler_from_def store_defs split: option.splits)

lemma obtain_frame:
  "parsing (snd (obtainCompileData h caller w e content filename)) = parsing w \<and>
   compilerCalls (snd (obtainCompileData h caller w e content filename)) \<le> Suc (compilerCalls w) \<and>
   count_list (trace (snd (obtainCompileData h caller w e content filename))) EvFallback =
     count_list (trace w) EvFallback \<and>
   (\<forall>a. fst (obtainCompileData h caller w e content filename) = Inr a \<longrightarrow>
      compileData (entries (snd (obtainCompileData h caller w e content filename)) e) = Some a)"
proof (cases "compileData (entries w e)")
  case (Some a)
  then show ?thesis by (simp add: obtainCompileData_def)
next
  case None
  obtain found w0 where f: "CachingCompiler_from w e = (found, w0)"
    by (cases "CachingCompiler_from w e")
  from from_frame [of w e] f have p: "parsing w0 = parsing w" and t: "trace w0 = trace w"
    and c: "\<forall>a. found = Some a \<longrightarrow> compileData (entries w0 e) = Some a" by simp_all
  from t have cc: "compilerCalls w0 = compilerCalls w" by (simp add: compilerCalls_def)
  show ?thesis
  proof (cases found)
    case fn: None
    with None f compileFresh_frame [of h caller w0 e content filename None] p t cc
    show ?thesis by (simp add: obtainCompileData_def)
  next
    case (Some a)
    with None f compileFresh_frame [of h caller w0 e content filename "cd_scriptData (compileDatas w0 a)"]
      p t cc c
    show ?thesis by (simp add: obtainCompileData_def)
  qed
qed

lemma resolve_frame:
  "parsing (snd (resolveCompileData h caller w e content filename)) = parsing w \<and>
   compilerCalls (snd (resolveCompileData h caller w e content filename)) \<le> Suc (compilerCalls w) \<and>
   count_list (trace (snd (resolveCompileData h caller w e content filename))) EvFallback =
     count_list (trace w) EvFallback \<and>
   (\<forall>a. fst (resolveCompileData h caller w e content filename) = Inr a \<longrightarrow>
      compileData (entries (snd (resolveCompileData h caller w e content filename)) e) = Some a)"
proof -
  obtain r w1 where ob: "obtainCompileData h caller w e content filename = (r, w1)"
    by (cases "obtainCompileData h caller w e content filename")
  from obtain_frame [of h caller w e content filename] ob
  show ?thesis
    by (cases r) (simp_all add: resolveCompileData_def defaultCode_frame compilerCalls_def)
qed

lemma compile_throws_in_resolve:
  "resolveCompileData h caller w e content filename = (Inl error, w1) \<Longrightarrow>
     compile h caller w e content filename fallback = (Inl error, w1)"
  by (simp add: compile_def)

lemma compileOptions_from:
  "compileOptions (snd (CachingCompiler_from w e)) e filename = compileOptions w e filename"
  by (simp add: compileOptions_def CachingCompiler_from_def store_defs Let_def sourceTypeOf_def
      split: option.splits)

















text \<open>
  C6. The parsing flag is the same after \<^verbatim>\<open>compile\<close> as before, whether \<^verbatim>\<open>compile\<close>
  returns or throws. When the flag is not set and the entry is an ESM entry in
  \<open>STATE_INITIAL\<close>, \<^verbatim>\<open>compile\<close> sets the flag for the runs of the \<^verbatim>\<open>try\<close> block and
  clears it when they have thrown as well as when they have returned, before the last
  run; in every other case all runs start from the state as it is, with the flag
  untouched.
\<close>

theorem compile_releases_parsing_flag:
  "parsing (snd (compile h caller w e content filename fallback)) = parsing w \<and>
   (resolveCompileData h caller w e content filename = (Inr a, w1) \<longrightarrow>
      (if \<not> parsing w1 \<and> type (entries w1 e) = TYPE_ESM \<and> state (entries w1 e) = STATE_INITIAL
       then compile h caller w e content filename fallback =
              (case runDeclarative h ((setState e STATE_PARSING_STARTED w1)\<lparr>parsing := True\<rparr>)
                      e a filename of
                 (Inl error, w3) \<Rightarrow> (Inl error, w3\<lparr>parsing := False\<rparr>)
               | (Inr res, w3) \<Rightarrow> tryRun h (w3\<lparr>parsing := False\<rparr>) e filename)
       else compile h caller w e content filename fallback =
              (if \<not> parsing w1 then tryRun h w1 e filename
               else if type (entries w1 e) = TYPE_ESM then runDeclarative h w1 e a filename
               else (case fallback of
                       Some f \<Rightarrow>
                         if fallbackWanted h w1 e then (f w1, log EvFallback w1)
                         else tryRun h w1 e filename
                     | None \<Rightarrow> tryRun h w1 e filename))))"
proof -
  let ?c = "compile h caller w e content filename fallback"
  obtain r w1' where res: "resolveCompileData h caller w e content filename = (r, w1')"
    by (cases "resolveCompileData h caller w e content filename")
  from resolve_frame [of h caller w e content filename] res
  have p1: "parsing w1' = parsing w" by simp
  have P: "parsing (snd ?c) = parsing w"
  proof (cases r)
    case (Inl error)
    with res p1 show ?thesis by (simp add: compile_throws_in_resolve)
  next
    case (Inr a')
    with res have "declFrame e w1' (snd ?c)" by (simp add: declFrame_compile)
    from declFrame_world [OF this] p1 show ?thesis by simp
  qed
  have Q: "if \<not> parsing w1 \<and> type (entries w1 e) = TYPE_ESM \<and> state (entries w1 e) = STATE_INITIAL
       then ?c =
              (case runDeclarative h ((setState e STATE_PARSING_STARTED w1)\<lparr>parsing := True\<rparr>)
                      e a filename of
                 (Inl error, w3) \<Rightarrow> (Inl error, w3\<lparr>parsing := False\<rparr>)
               | (Inr res, w3) \<Rightarrow> tryRun h (w3\<lparr>parsing := False\<rparr>) e filename)
       else ?c =
              (if \<not> parsing w1 then tryRun h w1 e filename
               else if type (entries w1 e) = TYPE_ESM then runDeclarative h w1 e a filename
               else (case fallback of
                       Some f \<Rightarrow>
                         if fallbackWanted h w1 e then (f w1, log EvFallback w1)
                         else tryRun h w1 e filename
                     | None \<Rightarrow> tryRun h w1 e filename))"
    if "resolveCompileData h caller w e content filename = (Inr a, w1)"
    using that by (auto simp add: compile_def Let_def split: prod.splits sum.splits option.splits)
  from P Q show ?thesis by blast
qed

text \<open>
  An outermost bootstrap whose module body throws, and one that returns.
\<close>

theorem compile_releases_parsing_flag_witness:
  "\<not> parsing demoWorld \<and> type (entries demoWorld 0) = TYPE_ESM \<and>
   state (entries demoWorld 0) = STATE_INITIAL \<and>
   fst (compile throwingHost 0 demoWorld 0 ''export default 1'' ''/app/a.js'' None) =
     Inl exportsError \<and>
   \<not> parsing (snd (compile throwingHost 0 demoWorld 0 ''export default 1'' ''/app/a.js'' None)) \<and>
   fst (compile demoHost 0 demoWorld 0 ''export default 1'' ''/app/a.js'' None) = Inr Undefined \<and>
   \<not> parsing (snd (compile demoHost 0 demoWorld 0 ''export default 1'' ''/app/a.js'' None))"
  using compile_releases_parsing_flag [of throwingHost 0 demoWorld 0 "''export default 1''"
      "''/app/a.js''" None 0
      "snd (resolveCompileData throwingHost 0 demoWorld 0 ''export default 1'' ''/app/a.js'')"]
    compile_releases_parsing_flag [of demoHost 0 demoWorld 0 "''export default 1''"
      "''/app/a.js''" None 0
      "snd (resolveCompileData demoHost 0 demoWorld 0 ''export default 1'' ''/app/a.js'')"]
  by (simp add: driver_defs store_defs demo_defs Let_def)

text \<open>
  C3, as the code has it. For an entry that is not an ESM entry and a function-valued
  \<^verbatim>\<open>fallback\<close>, \<^verbatim>\<open>compile\<close> returns \<^verbatim>\<open>fallback()\<close> if and only if the parsing flag is set,
  the importing parent entry is not an ESM entry, the entry's package or the parent's is
  the default package, and some frame of the call stack has an absolute file name that is
  not a path of the loader's own; in every other case, and without a \<^verbatim>\<open>fallback\<close>, it
  returns \<^verbatim>\<open>tryRun(entry, filename)\<close>.
\<close>

theorem compile_fallback_needs_active_parse:
  assumes res: "resolveCompileData h caller w e content filename = (Inr a, w1)"
    and cjs: "type (entries w1 e) \<noteq> TYPE_ESM"
  shows "compile h caller w e content filename (Some f) =
           (if parsing w \<and> fallbackWanted h w1 e then (f w1, log EvFallback w1)
            else tryRun h w1 e filename) \<and>
         count_list (trace (snd (compile h caller w e content filename (Some f)))) EvFallback =
           count_list (trace w) EvFallback + (if parsing w \<and> fallbackWanted h w1 e then 1 else 0) \<and>
         compile h caller w e content filename None = tryRun h w1 e filename"
proof -
  from resolve_frame [of h caller w e content filename] res
  have p1: "parsing w1 = parsing w"
    and c1: "count_list (trace w1) EvFallback = count_list (trace w) EvFallback" by simp_all
  have A: "compile h caller w e content filename (Some f) =
           (if parsing w \<and> fallbackWanted h w1 e then (f w1, log EvFallback w1)
            else tryRun h w1 e filename)"
    using res cjs p1 by (simp add: compile_def Let_def)
  have N: "compile h caller w e content filename None = tryRun h w1 e filename"
    using res cjs by (simp add: compile_def Let_def)
  have "count_list (trace (snd (tryRun h w1 e filename))) EvFallback = count_list (trace w1) EvFallback"
    by (rule runFrame_count [OF runFrame_tryRun]) simp
  with c1 have B: "count_list (trace (snd (compile h caller w e content filename (Some f)))) EvFallback =
           count_list (trace w) EvFallback + (if parsing w \<and> fallbackWanted h w1 e then 1 else 0)"
    unfolding A by (simp add: log_def)
  from A B N show ?thesis by blast
qed

text \<open>
  With the parsing flag set, the fallback is called.
\<close>

theorem compile_fallback_needs_active_parse_witness:
  "fst (compile demoHost 0 (cjsWorld\<lparr>parsing := True\<rparr>) 0 ''module.exports = 1'' ''/app/a.js''
          (Some demoFallback)) = Inr (String ''fallback'') \<and>
   count_list (trace (snd (compile demoHost 0 (cjsWorld\<lparr>parsing := True\<rparr>) 0
                             ''module.exports = 1'' ''/app/a.js'' (Some demoFallback)))) EvFallback = 1"
  using compile_fallback_needs_active_parse [of demoHost 0 "cjsWorld\<lparr>parsing := True\<rparr>" 0
      "''module.exports = 1''" "''/app/a.js''" 0
      "snd (resolveCompileData demoHost 0 (cjsWorld\<lparr>parsing := True\<rparr>) 0 ''module.exports = 1'' ''/app/a.js'')"
      demoFallback]
  by (simp add: driver_defs store_defs demo_defs Let_def)

text \<open>
  C3 as stated does not hold. A CJS entry of the default package without a parent, a
  stack frame outside the loader, and a fallback that is a function: without the parsing
  flag, \<^verbatim>\<open>compile\<close> runs the entry and never calls the fallback.
\<close>

theorem compile_skips_fallback_outside_parse:
  "type (entries cjsWorld 0) = TYPE_CJS \<and>
   fallbackWanted demoHost cjsWorld 0 \<and>
   \<not> parsing cjsWorld \<and>
   fst (compile demoHost 0 cjsWorld 0 ''module.exports = 1'' ''/app/a.js'' (Some demoFallback)) =
     Inr Undefined \<and>
   count_list (trace (snd (compile demoHost 0 cjsWorld 0 ''module.exports = 1'' ''/app/a.js''
                             (Some demoFallback)))) EvFallback = 0"
  by (simp add: driver_defs store_defs demo_defs Let_def)

subsection \<open>The state of an entry\<close>

lemma tryRun_end_state:
  assumes cd: "compileData (entries w e) = Some a"
  shows "case fst (tryRun h w e filename) of
         Inr res \<Rightarrow>
           state (entries (snd (tryRun h w e filename)) e) =
             (if parsing w then STATE_PARSING_COMPLETED else STATE_EXECUTION_COMPLETED)
       | Inl error \<Rightarrow>
           state (entries (snd (tryRun h w e filename)) e) = STATE_EXECUTION_COMPLETED"
proof -
  obtain l wb where b: "runBody h e a filename w = (l, wb)"
    by (cases "runBody h e a filename w")
  show ?thesis
  proof (cases "thrown l")
    case None
    with cd b show ?thesis
      by (simp add: tryRun_def state_completeRun fst_completeRun)
  next
    case (Some error)
    with cd b fst_failRun [of h e filename "type (entries w e) = TYPE_ESM" error wb]
    show ?thesis
      by (auto simp add: tryRun_def state_failRun)
  qed
qed

lemma tryRun_throw_state:
  "compileData (entries w e) = Some a \<Longrightarrow> fst (tryRun h w e filename) = Inl error \<Longrightarrow>
     state (entries (snd (tryRun h w e filename)) e) = STATE_EXECUTION_COMPLETED"
  using tryRun_end_state [of w e a h filename] by simp

lemma tryRun_noCompileData_state:
  "compileData (entries w e) = None \<Longrightarrow>
     fst (tryRun h w e filename) = Inl typeError \<and>
     state (entries (snd (tryRun h w e filename)) e) =
       (if runtime (entries w e) = None \<and> type (entries w e) \<noteq> TYPE_ESM then state (entries w e)
        else if parsing w then STATE_PARSING_STARTED else STATE_EXECUTION_STARTED)"
  by (simp add: tryRun_def tryRun_noCompileData_def Let_def store_defs split: option.splits)

lemma tryCompile_end_state:
  "case fst (tryCompile h caller w e content options) of
      Inr cd \<Rightarrow> state (entries (snd (tryCompile h caller w e content options)) e) = state (entries w e)
    | Inl error \<Rightarrow>
        state (entries (snd (tryCompile h caller w e content options)) e) = STATE_EXECUTION_COMPLETED"
  by (simp add: tryCompile_def Let_def store_defs split: sum.splits)

lemma compileFresh_state:
  "fst (compileFresh h caller w e content filename sd) = Inr a \<Longrightarrow>
     state (entries (snd (compileFresh h caller w e content filename sd)) e) = state (entries w e)"
  "fst (compileFresh h caller w e content filename sd) = Inl error \<Longrightarrow>
     state (entries (snd (compileFresh h caller w e content filename sd)) e) = STATE_EXECUTION_COMPLETED"
  by (simp_all add: compileFresh_def tryCompile_def Let_def store_defs split: sum.splits if_splits)

lemma from_state:
  "state (entries (snd (CachingCompiler_from w e)) e) = state (entries w e)"
  by (simp add: CachingCompiler_from_def store_defs split: option.splits)

lemma obtain_state:
  "fst (obtainCompileData h caller w e content filename) = Inr a \<Longrightarrow>
     state (entries (snd (obtainCompileData h caller w e content filename)) e) = state (entries w e)"
  "fst (obtainCompileData h caller w e content filename) = Inl error \<Longrightarrow>
     state (entries (snd (obtainCompileData h caller w e content filename)) e) = STATE_EXECUTION_COMPLETED"
proof -
  let ?w0 = "snd (CachingCompiler_from w e)"
  have "(fst (obtainCompileData h caller w e content filename) = Inr a \<longrightarrow>
     state (entries (snd (obtainCompileData h caller w e content filename)) e) = state (entries w e)) \<and>
    (fst (obtainCompileData h caller w e content filename) = Inl error \<longrightarrow>
     state (entries (snd (obtainCompileData h caller w e content filename)) e) = STATE_EXECUTION_COMPLETED)"
  proof -
    consider a' where "obtainCompileData h caller w e content filename = (Inr a', w)"
      | a' where "obtainCompileData h caller w e content filename = (Inr a', ?w0)"
      | sd where "obtainCompileData h caller w e content filename =
                    compileFresh h caller ?w0 e content filename sd"
    proof (cases "compileData (entries w e)")
      case (Some a')
      then have "obtainCompileData h caller w e content filename = (Inr a', w)"
        by (simp add: obtainCompileData_def)
      then show ?thesis by (rule that(1))
    next
      case None
      obtain found w0 where f: "CachingCompiler_from w e = (found, w0)"
        by (cases "CachingCompiler_from w e")
      then have w0: "w0 = ?w0" by simp
      show ?thesis
      proof (cases found)
        case fn: None
        with None f have "obtainCompileData h caller w e content filename =
            compileFresh h caller ?w0 e content filename None"
          by (simp add: obtainCompileData_def)
        then show ?thesis by (rule that(3))
      next
        case (Some a')
        show ?thesis
        proof (cases "cd_transforms (compileDatas w0 a') \<noteq> 0")
          case True
          with None f Some have "obtainCompileData h caller w e content filename =
              compileFresh h caller ?w0 e content filename (cd_scriptData (compileDatas w0 a'))"
            by (simp add: obtainCompileData_def)
          then show ?thesis by (rule that(3))
        next
          case False
          with None f Some have "obtainCompileData h caller w e content filename = (Inr a', ?w0)"
            by (simp add: obtainCompileData_def)
          then show ?thesis by (rule that(2))
        qed
      qed
    qed
    then show ?thesis
    proof cases
      case 1
      then show ?thesis by simp
    next
      case 2
      then show ?thesis by (simp add: from_state)
    next
      case 3
      from compileFresh_state [of h caller ?w0 e content filename sd]
      show ?thesis unfolding 3 by (simp add: from_state)
    qed
  qed
  then show "fst (obtainCompileData h caller w e content filename) = Inr a \<Longrightarrow>
     state (entries (snd (obtainCompileData h caller w e content filename)) e) = state (entries w e)"
    and "fst (obtainCompileData h caller w e content filename) = Inl error \<Longrightarrow>
     state (entries (snd (obtainCompileData h caller w e content filename)) e) = STATE_EXECUTION_COMPLETED"
    by simp_all
qed

lemma resolve_state:
  "fst (resolveCompileData h caller w e content filename) = Inr a \<Longrightarrow>
     state (entries (snd (resolveCompileData h caller w e content filename)) e) = state (entries w e)"
  "fst (resolveCompileData h caller w e content filename) = Inl error \<Longrightarrow>
     state (entries (snd (resolveCompileData h caller w e content filename)) e) = STATE_EXECUTION_COMPLETED"
proof -
  obtain r w1 where ob: "obtainCompileData h caller w e content filename = (r, w1)"
    by (cases "obtainCompileData h caller w e content filename")
  from obtain_state [of h caller w e content filename] ob
  show "fst (resolveCompileData h caller w e content filename) = Inr a \<Longrightarrow>
     state (entries (snd (resolveCompileData h caller w e content filename)) e) = state (entries w e)"
    and "fst (resolveCompileData h caller w e content filename) = Inl error \<Longrightarrow>
     state (entries (snd (resolveCompileData h caller w e content filename)) e) = STATE_EXECUTION_COMPLETED"
    by (cases r; simp add: resolveCompileData_def defaultCode_frame)+
qed

lemma runDeclarative_throw_state:
  assumes cd: "compileData (entries w e) = Some a"
    and thr: "fst (runDeclarative h w e a filename) = Inl error"
  shows "state (entries (snd (runDeclarative h w e a filename)) e) = STATE_EXECUTION_COMPLETED"
proof -
  obtain r1 w1 where t: "tryRun h w e filename = (r1, w1)" by (cases "tryRun h w e filename")
  show ?thesis
  proof (cases r1)
    case (Inl err)
    with t tryRun_throw_state [OF cd, of h filename err] show ?thesis
      by (simp add: runDeclarative_def)
  next
    case (Inr res)
    from runFrame_tryRun [of e w h filename] t have f1: "runFrame e w w1" by simp
    from runFrame_entry [OF f1] cd have cd1: "compileData (entries w1 e) = Some a" by simp
    define w2 where "w2 = (if cd_circular (compileDatas w1 a) = - 1
               then updCompileData a
                      (\<lambda>cd. cd\<lparr>cd_circular := (if fst (isDescendant w1 e e None) then 1 else 0)\<rparr>) w1
               else w1)"
    have e2: "entries w2 = entries w1" by (simp add: w2_def store_defs)
    define rw3 where "rw3 = (if cd_circular (compileDatas w2 a) = 1 then rerunCircular h w2 e a filename
                else (Inr res, w2))"
    have d: "runDeclarative h w e a filename =
        (case rw3 of
           (Inl error, w3) \<Rightarrow> (Inl error, w3)
         | (Inr res', w3) \<Rightarrow>
             (let w4 = Entry_updateBindings e w3;
                  w5 = (if namespaceFinalized (entries w4 e) \<noteq> NAMESPACE_FINALIZATION_DEFERRED h
                        then Entry_finalizeNamespace e w4 else w4)
              in (Inr res', w5)))"
      using t Inr unfolding rw3_def w2_def
      by (simp add: runDeclarative_def Let_def del: isDescendant.simps)
    show ?thesis
    proof (cases "cd_circular (compileDatas w2 a) = 1")
      case False
      then have "rw3 = (Inr res, w2)" by (simp add: rw3_def)
      with d thr show ?thesis by (simp add: Let_def)
    next
      case True
      define w4 where "w4 = (let w1' = updEntry e (\<lambda>en. en\<lparr>circular := True, runtime := None\<rparr>) w2;
                                 w3 = updEntry e (\<lambda>en. en\<lparr>module_exports := Object (objects w1')\<rparr>)
                                        (w1'\<lparr>objects := Suc (objects w1')\<rparr>)
                             in case cd_codeWithTDZ (compileDatas w3 a) of
                                  Some codeWithTDZ \<Rightarrow>
                                    updCompileData a (\<lambda>cd. cd\<lparr>cd_code := Some codeWithTDZ\<rparr>) w3
                                | None \<Rightarrow> w3)"
      have rr: "rerunCircular h w2 e a filename = tryRun h w4 e filename"
        unfolding rerunCircular_def Let_def GenericObject_create_def w4_def
        by (simp split: option.splits)
      have cd4: "compileData (entries w4 e) = Some a"
        using cd1 e2 by (simp add: w4_def Let_def store_defs split: option.splits)
      from True rr have r3: "rw3 = tryRun h w4 e filename" by (simp add: rw3_def)
      obtain r4 w5 where t4: "tryRun h w4 e filename = (r4, w5)" by (cases "tryRun h w4 e filename")
      show ?thesis
      proof (cases r4)
        case (Inl err)
        with d r3 t4 tryRun_throw_state [OF cd4, of h filename err] show ?thesis by simp
      next
        case (Inr res')
        with d r3 t4 thr show ?thesis by (simp add: Let_def)
      qed
    qed
  qed
qed

lemma compile_throw_state:
  assumes thr: "fst (compile h caller w e content filename fallback) = Inl error"
  shows "state (entries (snd (compile h caller w e content filename fallback)) e) =
           STATE_EXECUTION_COMPLETED \<or>
         (\<exists>f w1. fallback = Some f \<and> f w1 = Inl error \<and>
            state (entries (snd (compile h caller w e content filename fallback)) e) =
              state (entries w e))"
proof -
  let ?c = "compile h caller w e content filename fallback"
  obtain r w1 where res: "resolveCompileData h caller w e content filename = (r, w1)"
    by (cases "resolveCompileData h caller w e content filename")
  show ?thesis
  proof (cases r)
    case (Inl err)
    with res resolve_state(2) [of h caller w e content filename err]
    show ?thesis by (simp add: compile_throws_in_resolve)
  next
    case (Inr a)
    from resolve_frame [of h caller w e content filename] res Inr
    have cd1: "compileData (entries w1 e) = Some a" by simp
    from resolve_state(1) [of h caller w e content filename a] res Inr
    have st1: "state (entries w1 e) = state (entries w e)" by simp
    let ?isESM = "type (entries w1 e) = TYPE_ESM"
    let ?side = "\<not> parsing w1 \<and> ?isESM \<and> state (entries w1 e) = STATE_INITIAL"
    have direct: ?thesis if c: "?c = tryRun h w1 e filename"
      using thr tryRun_throw_state [OF cd1, of h filename error] unfolding c by simp
    show ?thesis
    proof (cases "parsing w1")
      case True
      show ?thesis
      proof (cases ?isESM)
        case esm: True
        obtain r3 w3 where d: "runDeclarative h w1 e a filename = (r3, w3)"
          by (cases "runDeclarative h w1 e a filename")
        have c: "?c = (r3, w3)"
          using res Inr True esm d by (simp add: compile_def Let_def split: sum.splits)
        from thr c have "r3 = Inl error" by simp
        with runDeclarative_throw_state [OF cd1, of h filename error] d c
        show ?thesis by simp
      next
        case cjs: False
        show ?thesis
        proof (cases "\<exists>f. fallback = Some f \<and> fallbackWanted h w1 e")
          case ex: True
          then obtain f where f: "fallback = Some f" "fallbackWanted h w1 e" by blast
          with res Inr True cjs have c: "?c = (f w1, log EvFallback w1)"
            by (simp add: compile_def Let_def)
          from thr c have "f w1 = Inl error" by simp
          moreover have "state (entries (snd ?c) e) = state (entries w e)"
            unfolding c using st1 by (simp add: store_defs)
          ultimately show ?thesis using f by blast
        next
          case nf: False
          with res Inr True cjs have "?c = tryRun h w1 e filename"
            by (auto simp add: compile_def Let_def split: option.splits)
          then show ?thesis by (rule direct)
        qed
      qed
    next
      case False
      show ?thesis
      proof (cases ?side)
        case notside: False
        with res Inr False have "?c = tryRun h w1 e filename"
          by (simp add: compile_def Let_def)
        then show ?thesis by (rule direct)
      next
        case side: True
        let ?w2 = "(setState e STATE_PARSING_STARTED w1)\<lparr>parsing := True\<rparr>"
        have cd2: "compileData (entries ?w2 e) = Some a"
          using cd1 by (simp add: store_defs)
        obtain r3 w3 where d: "runDeclarative h ?w2 e a filename = (r3, w3)"
          by (cases "runDeclarative h ?w2 e a filename")
        let ?w4 = "w3\<lparr>parsing := False\<rparr>"
        have c: "?c = (case r3 of Inl error \<Rightarrow> (Inl error, ?w4)
                       | Inr res \<Rightarrow> tryRun h ?w4 e filename)"
          using res Inr False side d by (simp add: compile_def Let_def split: sum.splits)
        show ?thesis
        proof (cases r3)
          case (Inl err)
          with runDeclarative_throw_state [OF cd2, of h filename err] d
          have "state (entries w3 e) = STATE_EXECUTION_COMPLETED" by simp
          with c Inl show ?thesis by simp
        next
          case r3: (Inr res)
          from declFrame_runDeclarative [of e ?w2 h a filename] d have "declFrame e ?w2 w3" by simp
          from declFrame_entry [OF this] cd2 have cd4: "compileData (entries ?w4 e) = Some a"
            by simp
          from c r3 have c': "?c = tryRun h ?w4 e filename" by simp
          from thr tryRun_throw_state [OF cd4, of h filename error] show ?thesis
            unfolding c' by simp
        qed
      qed
    qed
  qed
qed

text \<open>
  C5, as the code has it. \<^verbatim>\<open>tryRun\<close> does not look at the state an entry is in. For an
  entry that has its CompileData, as every entry has that \<^verbatim>\<open>compile\<close> passes to \<^verbatim>\<open>tryRun\<close>:
  when \<^verbatim>\<open>tryRun\<close> returns, the state is \<open>STATE_PARSING_COMPLETED\<close> if the parsing flag was set
  at the call and \<open>STATE_EXECUTION_COMPLETED\<close> otherwise, whatever the state was before, and
  when it throws, the state is \<open>STATE_EXECUTION_COMPLETED\<close>. For an entry without a
  CompileData \<^verbatim>\<open>tryRun\<close> throws a TypeError, and the state is as it was or the started one.
  \<^verbatim>\<open>tryCompile\<close> leaves the state alone when the Caching Compiler returns and sets
  \<open>STATE_EXECUTION_COMPLETED\<close> when it throws. Whenever \<^verbatim>\<open>compile\<close> throws, the state is
  \<open>STATE_EXECUTION_COMPLETED\<close>, unless the error is the one that the caller's \<^verbatim>\<open>fallback\<close> has
  thrown: then the state is what it was before the call.
\<close>

theorem tryRun_tryCompile_final_state:
  "(compileData (entries w e) \<noteq> None \<longrightarrow>
      (case fst (tryRun h w e filename) of
         Inr res \<Rightarrow>
           state (entries (snd (tryRun h w e filename)) e) =
             (if parsing w then STATE_PARSING_COMPLETED else STATE_EXECUTION_COMPLETED)
       | Inl error \<Rightarrow>
           state (entries (snd (tryRun h w e filename)) e) = STATE_EXECUTION_COMPLETED)) \<and>
   (compileData (entries w e) = None \<longrightarrow>
      fst (tryRun h w e filename) = Inl typeError \<and>
      state (entries (snd (tryRun h w e filename)) e) =
        (if runtime (entries w e) = None \<and> type (entries w e) \<noteq> TYPE_ESM then state (entries w e)
         else if parsing w then STATE_PARSING_STARTED else STATE_EXECUTION_STARTED)) \<and>
   (case fst (tryCompile h caller w e content options) of
      Inr cd \<Rightarrow> state (entries (snd (tryCompile h caller w e content options)) e) = state (entries w e)
    | Inl error \<Rightarrow>
        state (entries (snd (tryCompile h caller w e content options)) e) = STATE_EXECUTION_COMPLETED) \<and>
   (fst (compile h caller w e content filename fallback) = Inl error \<longrightarrow>
      state (entries (snd (compile h caller w e content filename fallback)) e) =
        STATE_EXECUTION_COMPLETED \<or>
      (\<exists>f w1. fallback = Some f \<and> f w1 = Inl error \<and>
         state (entries (snd (compile h caller w e content filename fallback)) e) =
           state (entries w e)))"
proof (intro conjI impI)
  assume "compileData (entries w e) \<noteq> None"
  then obtain a where "compileData (entries w e) = Some a" by auto
  then show "case fst (tryRun h w e filename) of
         Inr res \<Rightarrow>
           state (entries (snd (tryRun h w e filename)) e) =
             (if parsing w then STATE_PARSING_COMPLETED else STATE_EXECUTION_COMPLETED)
       | Inl error \<Rightarrow>
           state (entries (snd (tryRun h w e filename)) e) = STATE_EXECUTION_COMPLETED"
    by (rule tryRun_end_state)
next
  assume n: "compileData (entries w e) = None"
  from tryRun_noCompileData_state [OF n, of h filename]
  show "fst (tryRun h w e filename) = Inl typeError" by simp
  from tryRun_noCompileData_state [OF n, of h filename]
  show "state (entries (snd (tryRun h w e filename)) e) =
        (if runtime (entries w e) = None \<and> type (entries w e) \<noteq> TYPE_ESM then state (entries w e)
         else if parsing w then STATE_PARSING_STARTED else STATE_EXECUTION_STARTED)" by simp
next
  show "case fst (tryCompile h caller w e content options) of
      Inr cd \<Rightarrow> state (entries (snd (tryCompile h caller w e content options)) e) = state (entries w e)
    | Inl error \<Rightarrow>
        state (entries (snd (tryCompile h caller w e content options)) e) = STATE_EXECUTION_COMPLETED"
    by (rule tryCompile_end_state)
next
  assume "fst (compile h caller w e content filename fallback) = Inl error"
  then show "state (entries (snd (compile h caller w e content filename fallback)) e) =
        STATE_EXECUTION_COMPLETED \<or>
      (\<exists>f w1. fallback = Some f \<and> f w1 = Inl error \<and>
         state (entries (snd (compile h caller w e content filename fallback)) e) =
           state (entries w e))"
    by (rule compile_throw_state)
qed

text \<open>
  A run that returns; a run that throws under the parsing flag; a run for an entry without a
  CompileData; a Caching Compiler that throws, in \<^verbatim>\<open>tryCompile\<close> and in \<^verbatim>\<open>compile\<close>; and a
  fallback that throws.
\<close>

theorem tryRun_tryCompile_final_state_witness:
  "compileData (entries demoWorld 0) \<noteq> None \<and>
   fst (tryRun demoHost demoWorld 0 ''/app/a.js'') = Inr Undefined \<and>
   state (entries (snd (tryRun demoHost demoWorld 0 ''/app/a.js'')) 0) = STATE_EXECUTION_COMPLETED \<and>
   fst (tryRun throwingHost (demoWorld\<lparr>parsing := True\<rparr>) 0 ''/app/a.js'') = Inl exportsError \<and>
   state (entries (snd (tryRun throwingHost (demoWorld\<lparr>parsing := True\<rparr>) 0 ''/app/a.js'')) 0) =
     STATE_EXECUTION_COMPLETED \<and>
   compileData (entries freshCjsWorld 0) = None \<and>
   fst (tryRun demoHost freshCjsWorld 0 ''/app/a.js'') = Inl typeError \<and>
   state (entries (snd (tryRun demoHost freshCjsWorld 0 ''/app/a.js'')) 0) = STATE_INITIAL \<and>
   fst (tryCompile failingCompilerHost 0 demoWorld 0 ''export default 1''
          (compileOptions demoWorld 0 ''/app/a.js'')) = Inl exportsError \<and>
   state (entries (snd (tryCompile failingCompilerHost 0 demoWorld 0 ''export default 1''
          (compileOptions demoWorld 0 ''/app/a.js''))) 0) = STATE_EXECUTION_COMPLETED \<and>
   fst (compile failingCompilerHost 0 freshCjsWorld 0 ''eval(1)'' ''/app/a.js'' None) =
     Inl exportsError \<and>
   state (entries (snd (compile failingCompilerHost 0 freshCjsWorld 0 ''eval(1)'' ''/app/a.js'' None)) 0) =
     STATE_EXECUTION_COMPLETED \<and>
   fst (compile demoHost 0 (cjsWorld\<lparr>parsing := True\<rparr>) 0 ''eval(1)'' ''/app/a.js''
          (Some throwingFallback)) = Inl exportsError \<and>
   state (entries (snd (compile demoHost 0 (cjsWorld\<lparr>parsing := True\<rparr>) 0 ''eval(1)'' ''/app/a.js''
          (Some throwingFallback))) 0) = state (entries (cjsWorld\<lparr>parsing := True\<rparr>) 0) \<and>
   state (entries (cjsWorld\<lparr>parsing := True\<rparr>) 0) = STATE_INITIAL"
proof -
  note t = tryRun_tryCompile_final_state
  have a: "compileData (entries demoWorld 0) \<noteq> None \<and>
   fst (tryRun demoHost demoWorld 0 ''/app/a.js'') = Inr Undefined \<and>
   state (entries (snd (tryRun demoHost demoWorld 0 ''/app/a.js'')) 0) = STATE_EXECUTION_COMPLETED"
    using t [THEN conjunct1, of demoWorld 0 demoHost "''/app/a.js''"]
    by (simp add: driver_defs store_defs demo_defs Let_def)
  have b: "fst (tryRun throwingHost (demoWorld\<lparr>parsing := True\<rparr>) 0 ''/app/a.js'') = Inl exportsError \<and>
   state (entries (snd (tryRun throwingHost (demoWorld\<lparr>parsing := True\<rparr>) 0 ''/app/a.js'')) 0) =
     STATE_EXECUTION_COMPLETED"
    using t [THEN conjunct1, of "demoWorld\<lparr>parsing := True\<rparr>" 0 throwingHost "''/app/a.js''"]
    by (simp add: driver_defs store_defs demo_defs Let_def)
  have c: "compileData (entries freshCjsWorld 0) = None \<and>
   fst (tryRun demoHost freshCjsWorld 0 ''/app/a.js'') = Inl typeError \<and>
   state (entries (snd (tryRun demoHost freshCjsWorld 0 ''/app/a.js'')) 0) = STATE_INITIAL"
    using t [THEN conjunct2, THEN conjunct1, of freshCjsWorld 0 demoHost "''/app/a.js''"]
    by (simp add: demo_defs)
  have d: "fst (tryCompile failingCompilerHost 0 demoWorld 0 ''export default 1''
          (compileOptions demoWorld 0 ''/app/a.js'')) = Inl exportsError \<and>
   state (entries (snd (tryCompile failingCompilerHost 0 demoWorld 0 ''export default 1''
          (compileOptions demoWorld 0 ''/app/a.js''))) 0) = STATE_EXECUTION_COMPLETED"
    using t [THEN conjunct2, THEN conjunct2, THEN conjunct1, of failingCompilerHost 0 demoWorld 0
        "''export default 1''" "compileOptions demoWorld 0 ''/app/a.js''"]
    by (simp add: driver_defs store_defs demo_defs Let_def)
  have e: "fst (compile failingCompilerHost 0 freshCjsWorld 0 ''eval(1)'' ''/app/a.js'' None) =
     Inl exportsError \<and>
   state (entries (snd (compile failingCompilerHost 0 freshCjsWorld 0 ''eval(1)'' ''/app/a.js'' None)) 0) =
     STATE_EXECUTION_COMPLETED"
    using t [THEN conjunct2, THEN conjunct2, THEN conjunct2, of failingCompilerHost 0 freshCjsWorld 0
        "''eval(1)''" "''/app/a.js''" None exportsError]
    by (simp add: driver_defs store_defs demo_defs Let_def)
  have f: "fst (compile demoHost 0 (cjsWorld\<lparr>parsing := True\<rparr>) 0 ''eval(1)'' ''/app/a.js''
          (Some throwingFallback)) = Inl exportsError \<and>
   state (entries (snd (compile demoHost 0 (cjsWorld\<lparr>parsing := True\<rparr>) 0 ''eval(1)'' ''/app/a.js''
          (Some throwingFallback))) 0) = state (entries (cjsWorld\<lparr>parsing := True\<rparr>) 0) \<and>
   state (entries (cjsWorld\<lparr>parsing := True\<rparr>) 0) = STATE_INITIAL"
    using t [THEN conjunct2, THEN conjunct2, THEN conjunct2, of demoHost 0 "cjsWorld\<lparr>parsing := True\<rparr>" 0
        "''eval(1)''" "''/app/a.js''" "Some throwingFallback" exportsError]
    by (simp add: driver_defs store_defs demo_defs throwingFallback_def Let_def)
  from a b c d e f show ?thesis by simp
qed

text \<open>
  C5 as stated does not hold. An ESM entry that \<^verbatim>\<open>compile\<close> has processed under another
  bootstrap's parsing flag is in \<open>STATE_PARSING_COMPLETED\<close>; the next \<^verbatim>\<open>compile\<close>, with the
  flag released, returns and leaves it in \<open>STATE_EXECUTION_COMPLETED\<close>, which the listed
  transitions do not reach from there. And when the \<^verbatim>\<open>fallback\<close> of a CJS entry throws,
  \<^verbatim>\<open>compile\<close> throws and the entry is still in \<open>STATE_INITIAL\<close>.
\<close>

theorem state_leaves_parsing_completed:
  "state (entries parsedWorld 0) = STATE_PARSING_COMPLETED \<and>
   fst (compile demoHost 0 (parsedWorld\<lparr>parsing := False\<rparr>) 0 ''export default 1'' ''/app/a.js'' None) =
     Inr Undefined \<and>
   state (entries (snd (compile demoHost 0 (parsedWorld\<lparr>parsing := False\<rparr>) 0
                          ''export default 1'' ''/app/a.js'' None)) 0) = STATE_EXECUTION_COMPLETED \<and>
   \<not> machine_path STATE_PARSING_COMPLETED STATE_EXECUTION_COMPLETED \<and>
   fst (compile demoHost 0 (cjsWorld\<lparr>parsing := True\<rparr>) 0 ''eval(1)'' ''/app/a.js''
          (Some throwingFallback)) = Inl exportsError \<and>
   state (entries (snd (compile demoHost 0 (cjsWorld\<lparr>parsing := True\<rparr>) 0 ''eval(1)'' ''/app/a.js''
          (Some throwingFallback))) 0) = STATE_INITIAL"
  by (simp add: parsedWorld_def machine_path_def driver_defs store_defs demo_defs
      throwingFallback_def Let_def)

subsection \<open>The revert of an \<^verbatim>\<open>eval\<close>-only transform\<close>

lemma compile_cjs_compileDatas:
  assumes res: "resolveCompileData h caller w e content filename = (Inr a, w1)"
    and cjs: "type (entries w1 e) \<noteq> TYPE_ESM"
  shows "compileDatas (snd (compile h caller w e content filename fallback)) = compileDatas w1"
proof -
  from runFrame_world [OF runFrame_tryRun [of e w1 h filename]]
  have "compileDatas (snd (tryRun h w1 e filename)) = compileDatas w1" by simp
  then show ?thesis
    using res cjs by (simp add: compile_def Let_def log_def split: option.splits)
qed

lemma compileFresh_result:
  assumes comp: "CachingCompiler_compile h w content (compileOptions w e filename) = Inr cd0"
    and res: "compileFresh h caller w e content filename sd = (r, w1)"
  shows "r = Inr (compileDataCount w) \<and>
         type (entries w1 e) =
           (if cd_sourceType cd0 = SOURCE_TYPE_MODULE then TYPE_ESM else type (entries w e)) \<and>
         (if package (entries w e) = defaultPkg w \<and> type (entries w1 e) = TYPE_CJS \<and>
             cd_transforms cd0 = TRANSFORMS_EVAL h
          then cd_code (compileDatas w1 (compileDataCount w)) = Some content \<and>
               cd_transforms (compileDatas w1 (compileDataCount w)) = 0
          else cd_code (compileDatas w1 (compileDataCount w)) = cd_code cd0 \<and>
               cd_transforms (compileDatas w1 (compileDataCount w)) = cd_transforms cd0)"
  using comp res
  by (auto simp add: compileFresh_def tryCompile_def Let_def store_defs split: if_splits)

text \<open>
  C7. Let \<^verbatim>\<open>compile\<close> compile afresh (the entry has no CompileData, and the cache none without
  transforms), and let the Caching Compiler return \<open>cd0\<close>. The entry becomes an ESM entry
  if the compiled source type is \<open>SOURCE_TYPE_MODULE\<close> and keeps its type otherwise. If then
  the entry is in the default package, its type is \<open>TYPE_CJS\<close> and the transforms of \<open>cd0\<close>
  are exactly \<open>TRANSFORMS_EVAL\<close>, the code of the new CompileData is the original source
  and its transforms are 0, also when \<^verbatim>\<open>compile\<close> is done; under every other combination
  the transforms stay those of \<open>cd0\<close>, and the code is that of \<open>cd0\<close> (the original source
  only where \<open>cd0\<close> has no code).
\<close>

theorem compile_discards_eval_only_transform:
  assumes none: "compileData (entries w e) = None"
    and stale: "case fst (CachingCompiler_from w e) of
                  None \<Rightarrow> True | Some a0 \<Rightarrow> cd_transforms (compileDatas w a0) \<noteq> 0"
    and comp: "CachingCompiler_compile h (snd (CachingCompiler_from w e)) content
                 (compileOptions w e filename) = Inr cd0"
    and res: "resolveCompileData h caller w e content filename = (r, w1)"
    and fin: "compile h caller w e content filename fallback = (r', w')"
  shows "r = Inr (compileDataCount w) \<and>
         type (entries w1 e) =
           (if cd_sourceType cd0 = SOURCE_TYPE_MODULE then TYPE_ESM else type (entries w e)) \<and>
         (if package (entries w e) = defaultPkg w \<and> type (entries w1 e) = TYPE_CJS \<and>
             cd_transforms cd0 = TRANSFORMS_EVAL h
          then cd_code (compileDatas w1 (compileDataCount w)) = Some content \<and>
               cd_transforms (compileDatas w1 (compileDataCount w)) = 0 \<and>
               cd_code (compileDatas w' (compileDataCount w)) = Some content \<and>
               cd_transforms (compileDatas w' (compileDataCount w)) = 0
          else cd_code (compileDatas w1 (compileDataCount w)) =
                 (case cd_code cd0 of None \<Rightarrow> Some content | Some c \<Rightarrow> Some c) \<and>
               cd_transforms (compileDatas w1 (compileDataCount w)) = cd_transforms cd0 \<and>
               cd_transforms (compileDatas w' (compileDataCount w)) = cd_transforms cd0)"
proof -
  let ?a = "compileDataCount w"
  obtain found w0 where f: "CachingCompiler_from w e = (found, w0)"
    by (cases "CachingCompiler_from w e")
  have w0: "compileDataCount w0 = ?a \<and> defaultPkg w0 = defaultPkg w \<and>
            package (entries w0 e) = package (entries w e) \<and>
            type (entries w0 e) = type (entries w e) \<and> compileDatas w0 = compileDatas w"
    using f by (auto simp add: CachingCompiler_from_def store_defs split: option.splits)
  from comp f compileOptions_from [of w e filename]
  have comp0: "CachingCompiler_compile h w0 content (compileOptions w0 e filename) = Inr cd0"
    by simp
  obtain sd where ob: "obtainCompileData h caller w e content filename =
      compileFresh h caller w0 e content filename sd"
    using none stale f w0
    by (cases found) (simp_all add: obtainCompileData_def)
  obtain r0 w2 where cf: "compileFresh h caller w0 e content filename sd = (r0, w2)"
    by (cases "compileFresh h caller w0 e content filename sd")
  from compileFresh_result [OF comp0 cf] w0
  have fr: "r0 = Inr ?a \<and>
         type (entries w2 e) =
           (if cd_sourceType cd0 = SOURCE_TYPE_MODULE then TYPE_ESM else type (entries w e)) \<and>
         (if package (entries w e) = defaultPkg w \<and> type (entries w2 e) = TYPE_CJS \<and>
             cd_transforms cd0 = TRANSFORMS_EVAL h
          then cd_code (compileDatas w2 ?a) = Some content \<and>
               cd_transforms (compileDatas w2 ?a) = 0
          else cd_code (compileDatas w2 ?a) = cd_code cd0 \<and>
               cd_transforms (compileDatas w2 ?a) = cd_transforms cd0)"
    by (auto split: if_splits)
  from res ob cf fr have r: "r = Inr ?a" and w1: "w1 = defaultCode ?a content w2"
    by (simp_all add: resolveCompileData_def)
  have ty: "type (entries w1 e) = type (entries w2 e)"
    and tr: "cd_transforms (compileDatas w1 ?a) = cd_transforms (compileDatas w2 ?a)"
    and co: "cd_code (compileDatas w1 ?a) =
               (case cd_code (compileDatas w2 ?a) of None \<Rightarrow> Some content | Some c \<Rightarrow> Some c)"
    unfolding w1 by (auto simp add: defaultCode_def store_defs)
  from res r have res': "resolveCompileData h caller w e content filename = (Inr ?a, w1)" by simp
  from declFrame_transforms [OF declFrame_compile [OF res', of fallback]] fin
  have tf: "cd_transforms (compileDatas w' ?a) = cd_transforms (compileDatas w1 ?a)" by simp
  have cf': "compileDatas w' = compileDatas w1" if "type (entries w1 e) = TYPE_CJS"
    using compile_cjs_compileDatas [OF res', of fallback] that fin by simp
  show ?thesis
    using r fr ty tr co tf cf' by (auto split: option.splits)
qed

text \<open>
  A CJS module compiled with the \<^verbatim>\<open>eval\<close> transform only: reverted in the default package,
  kept in another package.
\<close>

theorem compile_discards_eval_only_transform_witness:
  "cd_code (compileDatas (snd (compile demoHost 0 freshCjsWorld 0 ''eval(1)'' ''/app/a.js'' None)) 1) =
     Some ''eval(1)'' \<and>
   cd_transforms (compileDatas (snd (compile demoHost 0 freshCjsWorld 0 ''eval(1)'' ''/app/a.js'' None)) 1) = 0 \<and>
   cd_transforms (compileDatas (snd (compile demoHost 0
       (freshCjsWorld\<lparr>defaultPkg := 1\<rparr>) 0 ''eval(1)'' ''/app/a.js'' None)) 1) = 4"
proof -
  let ?cd0 = "\<lparr>cd_code = Some ''eval(1)'', cd_sourceType = SOURCE_TYPE_SCRIPT, cd_transforms = 4,
        cd_scriptData = None, cd_codeWithTDZ = None, cd_circular = - 1,
        cd_firstAwaitOutsideFunction = None\<rparr>"
  let ?w1 = "freshCjsWorld\<lparr>defaultPkg := 1\<rparr>"
  have h0: "compileData (entries freshCjsWorld 0) = None"
    "case fst (CachingCompiler_from freshCjsWorld 0) of
       None \<Rightarrow> True
     | Some a0 \<Rightarrow> cd_transforms (compileDatas freshCjsWorld a0) \<noteq> 0"
    "CachingCompiler_compile demoHost (snd (CachingCompiler_from freshCjsWorld 0))
       ''eval(1)'' (compileOptions freshCjsWorld 0 ''/app/a.js'') = Inr ?cd0"
    by (simp_all add: CachingCompiler_from_def demo_defs)
  have h1: "compileData (entries ?w1 0) = None"
    "case fst (CachingCompiler_from ?w1 0) of
       None \<Rightarrow> True
     | Some a0 \<Rightarrow> cd_transforms (compileDatas ?w1 a0) \<noteq> 0"
    "CachingCompiler_compile demoHost (snd (CachingCompiler_from ?w1 0))
       ''eval(1)'' (compileOptions ?w1 0 ''/app/a.js'') = Inr ?cd0"
    by (simp_all add: CachingCompiler_from_def demo_defs)
  have v0: "package (entries freshCjsWorld 0) = defaultPkg freshCjsWorld"
    "type (entries freshCjsWorld 0) = TYPE_CJS"
    "compileDataCount freshCjsWorld = 1"
    and v1: "package (entries freshCjsWorld 0) = 0" "defaultPkg freshCjsWorld = 0"
    and ev: "TRANSFORMS_EVAL demoHost = 4"
    by (simp_all add: demo_defs)
  from compile_discards_eval_only_transform [OF h0 prod.collapse [symmetric]
      prod.collapse [symmetric], where caller = 0 and fallback = None]
  have a: "cd_code (compileDatas (snd (compile demoHost 0 freshCjsWorld 0 ''eval(1)'' ''/app/a.js'' None)) 1) =
     Some ''eval(1)'' \<and>
   cd_transforms (compileDatas (snd (compile demoHost 0 freshCjsWorld 0 ''eval(1)'' ''/app/a.js'' None)) 1) = 0"
    by (simp add: v0 ev cong: conj_cong)
  from compile_discards_eval_only_transform [OF h1 prod.collapse [symmetric]
      prod.collapse [symmetric], where caller = 0 and fallback = None]
  have b: "cd_transforms (compileDatas (snd (compile demoHost 0 ?w1 0 ''eval(1)'' ''/app/a.js'' None)) 1) = 4"
    by (simp add: v1 v0(2,3) ev)
  from a b show ?thesis by simp
qed

lemmas potential_defs = runPotential_def moduleCompiles_def pendingCompile_def

subsection \<open>The runs of a circular module\<close>

lemma potential_setRunning [simp]:
  "runPotential (setRunning e b w) e = runPotential w e"
  "pendingCompile (setRunning e b w) e = pendingCompile w e"
  "moduleCompiles e (setRunning e b w) = moduleCompiles e w"
  by (simp_all add: potential_defs store_defs)

lemma potential_setState [simp]:
  "runPotential (setState e s w) e = runPotential w e"
  "pendingCompile (setState e s w) e = pendingCompile w e"
  "moduleCompiles e (setState e s w) = moduleCompiles e w"
  by (simp_all add: potential_defs store_defs)















lemma rr_setState [simp]: "runResultOf (setState e s w) e' = runResultOf w e'"
  by (simp add: store_defs)

lemma rr_setRunning [simp]: "runResultOf (setRunning e b w) e' = runResultOf w e'"
  by (simp add: store_defs)


































end
